theory Spec2Isabelle
  imports Main "HOL-Library.Word"
begin

section \<open>Machine types and the heap\<close>

text \<open>
  The sample targets the Ingenic T31 (MIPS32, ILP32): \<open>int\<close> and \<open>size_t\<close> are 32 bits
  wide, \<open>uint64_t\<close> is 64 bits wide.  A C \<open>int\<close> is a 32-bit word read through
  \<open>sint\<close>; a \<open>size_t\<close> is a 32-bit word read through \<open>unat\<close>.  Converting between
  the two leaves the bits alone.
\<close>

type_synonym byte = "8 word"
type_synonym c_int = "32 word"
type_synonym size_t = "32 word"
type_synonym uint64_t = "64 word"

text \<open>A pointer is an address; \<open>0\<close> is \<open>NULL\<close>.\<close>

type_synonym addr = nat

datatype fault = OutOfBounds | BadPointer | DivByZero | NullDeref

datatype IMPAudioSampleRate = AUDIO_SAMPLE_RATE_UNSET | AUDIO_SAMPLE_RATE_16000
datatype IMPAudioBitWidth = AUDIO_BIT_WIDTH_UNSET | AUDIO_BIT_WIDTH_16
datatype IMPAudioSoundMode = AUDIO_SOUND_MODE_UNSET | AUDIO_SOUND_MODE_MONO

record IMPAudioIOAttr =
  samplerate :: IMPAudioSampleRate
  bitwidth :: IMPAudioBitWidth
  soundmode :: IMPAudioSoundMode
  frmNum :: c_int
  numPerFrm :: c_int
  chnCnt :: c_int

record IMPAudioIChnParam =
  usrFrmDepth :: c_int

record AudioConfiguration =
  devID :: c_int
  chnID :: c_int
  attr :: IMPAudioIOAttr
  chnParam :: IMPAudioIChnParam
  chnVol :: c_int
  aigain :: c_int
  channelNumber :: c_int
  sampleRate :: c_int
  channel :: c_int
  bitRate :: c_int

text \<open>
  Modelled from the spec: \<open>AudioTrackInfo_t\<close> is declared in a KVS header that is not
  among the sources.  The spec lists its attributes (track name, codec name, sample
  rate, channel count, codec-private byte blob); the fields are the ones
  \<open>initAudioTrackInfo\<close> assigns.  The two names point at string literals; the
  codec-private blob is a pointer into the heap together with its length.
\<close>

record AudioTrackInfo =
  pTrackName :: string
  pCodecName :: string
  uFrequency :: "32 word"
  uChannelNumber :: "32 word"
  pCodecPrivate :: addr
  uCodecPrivateLen :: "32 word"

record T31Audio =
  lock :: addr
  tid :: nat
  isTerminating :: bool
  isTerminated :: bool
  kvsAppHandle :: addr
  pAudioTrackInfo :: addr
  xAudioConf :: AudioConfiguration
  xAacEncHandle :: addr
  uPcmTimestamp :: uint64_t
  pPcmBuf :: addr
  uPcmOffset :: size_t
  uPcmBufSize :: size_t
  pFrameBuf :: addr
  xFrameBufSize :: c_int

text \<open>
  Modelled from the spec: \<open>IMPAudioFrame\<close> is declared in the vendor header
  \<open>imp/imp_audio.h\<close>, which is not among the sources.  The spec describes a device
  frame as a raw byte buffer plus its length; \<open>virAddr\<close> holds the bytes of device
  memory that start at the frame's address and \<open>len\<close> is the \<open>int\<close> length field.
\<close>

record IMPAudioFrame =
  virAddr :: "byte list"
  len :: c_int

text \<open>
  Heap objects are typed blocks.  Addresses are handed out in increasing order and
  never reused, so an address identifies one allocation; \<open>brk\<close> is the last address
  handed out.  The contents of a fresh block are indeterminate in C; they are zero
  here, and no definition below reads a byte of a fresh block before writing it.
\<close>

datatype obj =
    Bytes "byte list"
  | TrackInfoObj AudioTrackInfo
  | AudioObj T31Audio
  | LockObj
  | EncoderObj

record heap =
  cells :: "addr \<Rightarrow> obj option"
  brk :: addr

definition lookup :: "heap \<Rightarrow> addr \<Rightarrow> obj option" where
  "lookup h p = (if 0 < p \<and> p \<le> brk h then cells h p else None)"

definition store :: "heap \<Rightarrow> addr \<Rightarrow> obj \<Rightarrow> heap" where
  "store h p v = h\<lparr>cells := (cells h)(p := Some v)\<rparr>"

definition alloc :: "heap \<Rightarrow> obj \<Rightarrow> addr \<times> heap" where
  "alloc h v = (Suc (brk h), h\<lparr>cells := (cells h)(Suc (brk h) := Some v), brk := Suc (brk h)\<rparr>)"

definition free :: "heap \<Rightarrow> addr \<Rightarrow> heap" where
  "free h p = h\<lparr>cells := (cells h)(p := None)\<rparr>"

definition empty_heap :: heap where
  "empty_heap = \<lparr>cells = (\<lambda>_. None), brk = 0\<rparr>"

text \<open>
  \<open>memcpy (dst + doff, src + soff, n)\<close> where \<open>dst\<close> is a heap buffer and \<open>src\<close> is given
  by its bytes.  A range that leaves either buffer is undefined behaviour in C and a
  fault here.
\<close>

definition memcpy :: "heap \<Rightarrow> addr \<Rightarrow> nat \<Rightarrow> byte list \<Rightarrow> nat \<Rightarrow> nat \<Rightarrow> fault + heap" where
  "memcpy h dst doff src soff n =
     (case lookup h dst of
        Some (Bytes d) \<Rightarrow>
          if doff + n \<le> length d \<and> soff + n \<le> length src
          then Inr (store h dst (Bytes (take doff d @ take n (drop soff src) @ drop (doff + n) d)))
          else Inl OutOfBounds
      | _ \<Rightarrow> Inl BadPointer)"

section \<open>The outside world\<close>

datatype TrackType = TRACK_VIDEO | TRACK_AUDIO

text \<open>
  Every call that leaves this file, and every store to one of the two flags shared
  between the threads, is recorded in a trace.
\<close>

datatype event =
    LogError string
  | Encode addr "byte list" size_t
  | Malloc nat addr
  | Free addr
  | AddFrame addr addr "byte list" size_t size_t uint64_t TrackType
  | SetPubAttr c_int IMPAudioIOAttr c_int
  | Enable c_int c_int
  | SetChnParam c_int c_int IMPAudioIChnParam c_int
  | EnableChn c_int c_int c_int
  | SetVol c_int c_int c_int c_int
  | SetGain c_int c_int c_int c_int
  | PollingFrame c_int c_int c_int c_int
  | GetFrame c_int c_int c_int
  | ReleaseFrame c_int c_int c_int
  | DisableChn c_int c_int c_int
  | Disable c_int c_int
  | StoreIsTerminating
  | StoreIsTerminated
  | LockInit addr
  | LockCall addr bool
  | UnlockCall addr
  | GenerateCodecPrivate c_int addr
  | EncoderCreate addr size_t
  | ThreadCreate c_int nat
  | ThreadJoin nat
  | Sleep nat

type_synonym trace = "event list"

text \<open>
  The collaborators are parameters.  Each one answers from the trace so far, so it may
  keep state of its own and answer differently from call to call.

  \<^item> \<open>sizeof_virAddr_elem\<close>: the size of the type \<open>virAddr\<close> points to, by which the C
    expression \<open>pFrame->virAddr + xFrameOffset\<close> scales its offset (the declaration is
    in the vendor header);
  \<^item> \<open>sizeof_T31Audio_t\<close>, \<open>sizeof_AudioTrackInfo_t\<close>: the sizes of the two structures;
  \<^item> \<open>AUDIO_TRACK_NAME\<close>, \<open>AUDIO_CODEC_NAME\<close>, \<open>AUDIO_MPEG_OBJECT_TYPE\<close>,
    \<open>AAC_OBJECT_TYPE_AAC_LC\<close>: constants of headers that are not among the sources;
  \<^item> \<open>AacEncoder_encode\<close>: from the handle, the PCM block, its size and the capacity of the
    output buffer, the return code, the bytes written to the start of the output buffer
    and the output length stored through the last argument;
  \<^item> \<open>KVS_MALLOC\<close>: whether an allocation of the given size succeeds;
  \<^item> \<open>Lock_Init\<close>: whether a lock is created; \<open>Lock\<close>: whether the lock is taken
    (\<open>LOCK_OK\<close>);
  \<^item> \<open>Mkv_generateAacCodecPrivateData\<close>: the return code and the generated blob;
  \<^item> \<open>AacEncoder_create\<close>: whether an encoder is created, and the PCM buffer size it
    stores through its last argument;
  \<^item> \<open>pthread_create\<close>: the return code and the thread identifier.
\<close>

record world =
  sizeof_virAddr_elem :: nat
  sizeof_T31Audio_t :: nat
  sizeof_AudioTrackInfo_t :: nat
  AUDIO_TRACK_NAME :: string
  AUDIO_CODEC_NAME :: string
  AUDIO_MPEG_OBJECT_TYPE :: c_int
  AAC_OBJECT_TYPE_AAC_LC :: c_int
  AacEncoder_encode :: "trace \<Rightarrow> addr \<Rightarrow> byte list \<Rightarrow> size_t \<Rightarrow> c_int \<Rightarrow> c_int \<times> byte list \<times> c_int"
  KVS_MALLOC :: "trace \<Rightarrow> nat \<Rightarrow> bool"
  Lock_Init :: "trace \<Rightarrow> bool"
  Lock :: "trace \<Rightarrow> addr \<Rightarrow> bool"
  Mkv_generateAacCodecPrivateData :: "trace \<Rightarrow> c_int \<Rightarrow> 32 word \<Rightarrow> 32 word \<Rightarrow> c_int \<times> byte list"
  AacEncoder_create :: "trace \<Rightarrow> c_int \<Rightarrow> c_int \<Rightarrow> c_int \<Rightarrow> c_int \<Rightarrow> bool \<times> size_t"
  pthread_create :: "trace \<Rightarrow> c_int \<times> nat"

type_synonym state = "heap \<times> trace"

section \<open>sendAudioFrame\<close>

text \<open>
  Lines 178 to 196: the encoder runs on the full PCM buffer and writes into the frame
  buffer; on success with a non-empty output a copy of the output is allocated and
  handed to \<open>KvsApp_addFrame\<close>.
\<close>

definition encodeBlock :: "world \<Rightarrow> T31Audio \<Rightarrow> state \<Rightarrow> fault + state" where
  "encodeBlock w a s =
     (case s of (h, tr) \<Rightarrow>
      (case (lookup h (pPcmBuf a), lookup h (pFrameBuf a)) of
         (Some (Bytes pcm), Some (Bytes fb)) \<Rightarrow>
           if length pcm < unat (uPcmBufSize a) then Inl OutOfBounds
           else
             (case AacEncoder_encode w tr (xAacEncHandle a) (take (unat (uPcmBufSize a)) pcm)
                     (uPcmBufSize a) (xFrameBufSize a) of
                (rc, out, xFrameLen) \<Rightarrow>
                  if length fb < length out then Inl OutOfBounds
                  else
                    let h1 = store h (pFrameBuf a) (Bytes (out @ drop (length out) fb));
                        tr1 = tr @ [Encode (xAacEncHandle a) (take (unat (uPcmBufSize a)) pcm) (uPcmBufSize a)]
                    in if rc \<noteq> 0 then Inr (h1, tr1 @ [LogError ''aac encode failed''])
                       else
                         let uDataLen = xFrameLen
                         in if uDataLen = 0 then Inr (h1, tr1 @ [LogError ''OOM: pData''])
                            else if \<not> KVS_MALLOC w tr1 (unat uDataLen)
                            then Inr (h1, tr1 @ [Malloc (unat uDataLen) 0, LogError ''OOM: pData''])
                            else
                              (case alloc h1 (Bytes (replicate (unat uDataLen) 0)) of
                                 (pData, h2) \<Rightarrow>
                                   (case memcpy h2 pData 0 (out @ drop (length out) fb) 0 (unat uDataLen) of
                                      Inl e \<Rightarrow> Inl e
                                    | Inr h3 \<Rightarrow>
                                        Inr (h3, tr1 @ [Malloc (unat uDataLen) pData,
                                               AddFrame (kvsAppHandle a) pData
                                                 (take (unat uDataLen) (out @ drop (length out) fb))
                                                 uDataLen uDataLen (uPcmTimestamp a) TRACK_AUDIO]))))
       | _ \<Rightarrow> Inl BadPointer))"

text \<open>
  Lines 198 and 199.  \<open>uPcmBufSize * 1000\<close> is a \<open>size_t\<close> product, \<open>sampleRate * 2\<close> an
  \<open>int\<close> product converted to \<open>size_t\<close> for the unsigned division; the quotient is
  widened to \<open>uint64_t\<close>.  Division by zero is undefined in C and a fault here.
\<close>

definition timediff :: "T31Audio \<Rightarrow> uint64_t" where
  "timediff a = ucast ((uPcmBufSize a * 1000) div (sampleRate (xAudioConf a) * 2))"

text \<open>
  The \<open>memcpy\<close> of lines 165 and 173, from \<open>pFrame->virAddr + xFrameOffset\<close> to
  \<open>pAudio->pPcmBuf + pAudio->uPcmOffset\<close>.  A negative \<open>xFrameOffset\<close> points in
  front of the frame.
\<close>

definition frameCopy ::
  "world \<Rightarrow> heap \<Rightarrow> T31Audio \<Rightarrow> IMPAudioFrame \<Rightarrow> c_int \<Rightarrow> size_t \<Rightarrow> fault + heap" where
  "frameCopy w h a f xFrameOffset uCopySize =
     (if sint xFrameOffset < 0 then Inl OutOfBounds
      else memcpy h (pPcmBuf a) (unat (uPcmOffset a)) (virAddr f)
             (sizeof_virAddr_elem w * nat (sint xFrameOffset)) (unat uCopySize))"

text \<open>
  The \<open>while\<close> loop of lines 159 to 201.  \<open>xFrameOffset\<close> is an \<open>int\<close>, compared with
  \<open>pFrame->len\<close> as signed; the comparison of line 161 and the copy sizes are unsigned.
  The loop need not terminate (\<open>uPcmBufSize = 0\<close>), so it lives in the option monad:
  \<open>None\<close> is a run that never leaves the loop.
\<close>

partial_function (option) sendLoop ::
  "world \<Rightarrow> IMPAudioFrame \<Rightarrow> c_int \<Rightarrow> T31Audio \<Rightarrow> state \<Rightarrow> (fault + T31Audio \<times> state) option" where
  "sendLoop w f xFrameOffset a s =
     (if xFrameOffset <s len f then
        (if len f - xFrameOffset < uPcmBufSize a - uPcmOffset a then
           (let uCopySize = len f - xFrameOffset
            in case frameCopy w (fst s) a f xFrameOffset uCopySize of
                 Inl e \<Rightarrow> Some (Inl e)
               | Inr h1 \<Rightarrow>
                   sendLoop w f (xFrameOffset + uCopySize)
                     (a\<lparr>uPcmOffset := uPcmOffset a + uCopySize\<rparr>) (h1, snd s))
         else
           (let uCopySize = uPcmBufSize a - uPcmOffset a
            in case frameCopy w (fst s) a f xFrameOffset uCopySize of
                 Inl e \<Rightarrow> Some (Inl e)
               | Inr h1 \<Rightarrow>
                   (case encodeBlock w (a\<lparr>uPcmOffset := 0\<rparr>) (h1, snd s) of
                      Inl e \<Rightarrow> Some (Inl e)
                    | Inr s2 \<Rightarrow>
                        if sampleRate (xAudioConf a) * 2 = 0 then Some (Inl DivByZero)
                        else sendLoop w f (xFrameOffset + uCopySize)
                               (a\<lparr>uPcmOffset := 0, uPcmTimestamp := uPcmTimestamp a + timediff a\<rparr>) s2)))
      else Some (Inr (a, s)))"

text \<open>
  Lines 152 to 155: with an empty PCM buffer the timestamp is taken from the wall clock;
  \<open>now\<close> is what \<open>getEpochTimestampInMs\<close> returns when it is called.
\<close>

definition seedTimestamp :: "uint64_t \<Rightarrow> T31Audio \<Rightarrow> T31Audio" where
  "seedTimestamp now a = (if uPcmOffset a = 0 then a\<lparr>uPcmTimestamp := now\<rparr> else a)"

text \<open>
  \<open>sendAudioFrame\<close>: the two pointer arguments are options (\<open>None\<close> is \<open>NULL\<close>).  The
  result is the return code, the structure behind \<open>pAudio\<close> and the state.
  \<open>ERRNO_FAIL\<close> is \<open>__LINE__\<close>, here line 145.
\<close>

definition sendAudioFrame ::
  "world \<Rightarrow> uint64_t \<Rightarrow> T31Audio option \<Rightarrow> IMPAudioFrame option \<Rightarrow> state
     \<Rightarrow> (fault + c_int \<times> T31Audio option \<times> state) option" where
  "sendAudioFrame w now pAudio pFrame s =
     (case (pAudio, pFrame) of
        (Some a, Some f) \<Rightarrow>
          (case sendLoop w f 0 (seedTimestamp now a) s of
             None \<Rightarrow> None
           | Some (Inl e) \<Rightarrow> Some (Inl e)
           | Some (Inr (a', s')) \<Rightarrow> Some (Inr (0, Some a', s')))
      | _ \<Rightarrow> Some (Inr (145, pAudio, (fst s, snd s @ [LogError ''Invalid parameter'']))))"

section \<open>audioThread\<close>

text \<open>
  The return codes of the device calls made once per run of the worker.
\<close>

record device =
  rc_SetPubAttr :: c_int
  rc_Enable :: c_int
  rc_SetChnParam :: c_int
  rc_EnableChn :: c_int
  rc_SetVol :: c_int
  rc_SetGain :: c_int
  rc_DisableChn :: c_int
  rc_Disable :: c_int

text \<open>
  What happens during one iteration of the capture loop: whether the caller's store
  \<open>isTerminating = true\<close> lands during the iteration (the worker reads the flag only at
  line 258, so the moment within the iteration does not matter), the return codes of
  \<open>IMP_AI_PollingFrame\<close>, \<open>IMP_AI_GetFrame\<close> and \<open>IMP_AI_ReleaseFrame\<close>, the frame
  \<open>IMP_AI_GetFrame\<close> delivers and the wall-clock reading.  A list of iterations is a
  schedule; the loop runs as long as the schedule lasts.
\<close>

record iteration =
  it_terminates :: bool
  it_poll :: c_int
  it_get :: c_int
  it_frame :: IMPAudioFrame
  it_now :: uint64_t
  it_release :: c_int

text \<open>
  The condition of lines 219 to 223: six calls joined by \<open>||\<close>, so a call is made only
  if all calls before it returned 0.  The result tells whether the condition holds,
  that is, whether a call failed.
\<close>

definition setupFailed :: "device \<Rightarrow> AudioConfiguration \<Rightarrow> trace \<Rightarrow> bool \<times> trace" where
  "setupFailed d c tr =
     (let t1 = tr @ [SetPubAttr (devID c) (attr c) (rc_SetPubAttr d)] in
      if rc_SetPubAttr d \<noteq> 0 then (True, t1) else
      let t2 = t1 @ [Enable (devID c) (rc_Enable d)] in
      if rc_Enable d \<noteq> 0 then (True, t2) else
      let t3 = t2 @ [SetChnParam (devID c) (chnID c) (chnParam c) (rc_SetChnParam d)] in
      if rc_SetChnParam d \<noteq> 0 then (True, t3) else
      let t4 = t3 @ [EnableChn (devID c) (chnID c) (rc_EnableChn d)] in
      if rc_EnableChn d \<noteq> 0 then (True, t4) else
      let t5 = t4 @ [SetVol (devID c) (chnID c) (chnVol c) (rc_SetVol d)] in
      if rc_SetVol d \<noteq> 0 then (True, t5) else
      let t6 = t5 @ [SetGain (devID c) (chnID c) (aigain c) (rc_SetGain d)] in
      (rc_SetGain d \<noteq> 0, t6))"

text \<open>The condition of line 264: \<open>IMP_AI_Disable\<close> is called only if \<open>IMP_AI_DisableChn\<close> returned 0.\<close>

definition teardownFailed :: "device \<Rightarrow> AudioConfiguration \<Rightarrow> trace \<Rightarrow> bool \<times> trace" where
  "teardownFailed d c tr =
     (let t1 = tr @ [DisableChn (devID c) (chnID c) (rc_DisableChn d)] in
      if rc_DisableChn d \<noteq> 0 then (True, t1) else
      (rc_Disable d \<noteq> 0, t1 @ [Disable (devID c) (rc_Disable d)]))"

text \<open>
  The \<open>while (1)\<close> loop of lines 230 to 262.  The result is \<open>Some res\<close> when the loop is
  left by a \<open>break\<close> with \<open>res\<close> as it stands then, and \<open>None\<close> when the schedule ends with
  the worker still in the loop.
\<close>

fun audioLoop ::
  "world \<Rightarrow> iteration list \<Rightarrow> T31Audio \<Rightarrow> state \<Rightarrow> (fault + c_int option \<times> T31Audio \<times> state) option" where
  "audioLoop w [] a s = Some (Inr (None, a, s))"
| "audioLoop w (it # its) a s =
     (let c = xAudioConf a;
          a1 = (if it_terminates it then a\<lparr>isTerminating := True\<rparr> else a);
          t0 = (if it_terminates it then snd s @ [StoreIsTerminating] else snd s);
          t1 = t0 @ [PollingFrame (devID c) (chnID c) 1000 (it_poll it)]
      in if it_poll it \<noteq> 0
         then audioLoop w its a1 (fst s, t1 @ [LogError ''Audio Polling Frame Data error''])
         else
           let t2 = t1 @ [GetFrame (devID c) (chnID c) (it_get it)]
           in if it_get it \<noteq> 0
              then Some (Inr (Some 240, a1, (fst s, t2 @ [LogError ''Audio Get Frame Data error''])))
              else
                (case sendAudioFrame w (it_now it) (Some a1) (Some (it_frame it)) (fst s, t2) of
                   None \<Rightarrow> None
                 | Some (Inl e) \<Rightarrow> Some (Inl e)
                 | Some (Inr (rc, pa, s3)) \<Rightarrow>
                     (case pa of
                        None \<Rightarrow> Some (Inl NullDeref)
                      | Some a3 \<Rightarrow>
                          let t3 = (if rc \<noteq> 0 then snd s3 @ [LogError ''Failed to send Audio frame'']
                                    else snd s3);
                              t4 = t3 @ [ReleaseFrame (devID c) (chnID c) (it_release it)]
                          in if it_release it \<noteq> 0
                             then Some (Inr (Some 0, a3,
                                    (fst s3, t4 @ [LogError ''Audio release frame data error''])))
                             else if isTerminating a3 then Some (Inr (Some 0, a3, (fst s3, t4)))
                             else audioLoop w its a3 (fst s3, t4))))"

text \<open>
  \<open>audioThread\<close>.  The argument is the structure behind \<open>arg\<close> (\<open>None\<close> for \<open>NULL\<close>).  The
  result is \<open>Some res\<close> with the returned \<open>res\<close> when the thread function returns, and
  \<open>None\<close> when the schedule ends with the worker still polling.  With a \<open>NULL\<close> argument
  line 271 writes through the null pointer.
\<close>

definition audioThread ::
  "world \<Rightarrow> device \<Rightarrow> iteration list \<Rightarrow> T31Audio option \<Rightarrow> state
     \<Rightarrow> (fault + c_int option \<times> T31Audio \<times> state) option" where
  "audioThread w d sched arg s =
     (case arg of
        None \<Rightarrow> Some (Inl NullDeref)
      | Some a \<Rightarrow>
          (case setupFailed d (xAudioConf a) (snd s) of
             (True, t1) \<Rightarrow>
               Some (Inr (Some 226, a\<lparr>isTerminated := True\<rparr>,
                          (fst s, t1 @ [LogError ''Failed to setup audio'', StoreIsTerminated])))
           | (False, t1) \<Rightarrow>
               (case audioLoop w sched a (fst s, t1) of
                  None \<Rightarrow> None
                | Some (Inl e) \<Rightarrow> Some (Inl e)
                | Some (Inr (None, a2, s2)) \<Rightarrow> Some (Inr (None, a2, s2))
                | Some (Inr (Some res, a2, s2)) \<Rightarrow>
                    (case teardownFailed d (xAudioConf a2) (snd s2) of
                       (True, t3) \<Rightarrow>
                         Some (Inr (Some 267, a2\<lparr>isTerminated := True\<rparr>,
                                    (fst s2, t3 @ [LogError ''Audio device disable error'', StoreIsTerminated])))
                     | (False, t3) \<Rightarrow>
                         Some (Inr (Some res, a2\<lparr>isTerminated := True\<rparr>,
                                    (fst s2, t3 @ [StoreIsTerminated])))))))"

section \<open>Creation, termination and the track-info clone\<close>

text \<open>\<open>audioConfigurationInit\<close>: the configuration written behind a non-null pointer.\<close>

definition audioConfigurationInit ::
  "AudioConfiguration option \<Rightarrow> trace \<Rightarrow> c_int \<times> AudioConfiguration option \<times> trace" where
  "audioConfigurationInit pConf tr =
     (case pConf of
        None \<Rightarrow> (102, None, tr @ [LogError ''Invalid parameter''])
      | Some c \<Rightarrow>
          (0, Some \<lparr>devID = 1, chnID = 0,
                    attr = \<lparr>samplerate = AUDIO_SAMPLE_RATE_16000, bitwidth = AUDIO_BIT_WIDTH_16,
                             soundmode = AUDIO_SOUND_MODE_MONO, frmNum = 40, numPerFrm = 640,
                             chnCnt = 1\<rparr>,
                    chnParam = \<lparr>usrFrmDepth = 40\<rparr>, chnVol = 60, aigain = 28,
                    channelNumber = 1, sampleRate = 16000, channel = 1, bitRate = 128000\<rparr>, tr))"

text \<open>The structures after \<open>memset (p, 0, sizeof ...)\<close>.\<close>

definition zero_conf :: AudioConfiguration where
  "zero_conf = \<lparr>devID = 0, chnID = 0,
     attr = \<lparr>samplerate = AUDIO_SAMPLE_RATE_UNSET, bitwidth = AUDIO_BIT_WIDTH_UNSET,
              soundmode = AUDIO_SOUND_MODE_UNSET, frmNum = 0, numPerFrm = 0, chnCnt = 0\<rparr>,
     chnParam = \<lparr>usrFrmDepth = 0\<rparr>, chnVol = 0, aigain = 0, channelNumber = 0,
     sampleRate = 0, channel = 0, bitRate = 0\<rparr>"

definition zero_audio :: T31Audio where
  "zero_audio = \<lparr>lock = 0, tid = 0, isTerminating = False, isTerminated = False,
     kvsAppHandle = 0, pAudioTrackInfo = 0, xAudioConf = zero_conf, xAacEncHandle = 0,
     uPcmTimestamp = 0, pPcmBuf = 0, uPcmOffset = 0, uPcmBufSize = 0,
     pFrameBuf = 0, xFrameBufSize = 0\<rparr>"

definition zero_track_info :: AudioTrackInfo where
  "zero_track_info = \<lparr>pTrackName = [], pCodecName = [], uFrequency = 0, uChannelNumber = 0,
     pCodecPrivate = 0, uCodecPrivateLen = 0\<rparr>"

text \<open>
  \<open>initAudioTrackInfo\<close>.  The track info is allocated and filled; the codec-private
  blob is allocated by \<open>Mkv_generateAacCodecPrivateData\<close>.  When that call fails the
  track info is freed again (lines 322 to 328).
\<close>

definition initAudioTrackInfo ::
  "world \<Rightarrow> T31Audio option \<Rightarrow> state \<Rightarrow> c_int \<times> T31Audio option \<times> state" where
  "initAudioTrackInfo w pAudio s =
     (case pAudio of
        None \<Rightarrow> (286, None, (fst s, snd s @ [LogError ''Invalid parameter'']))
      | Some a \<Rightarrow>
          if pAudioTrackInfo a \<noteq> 0 then (0, Some a, s)
          else if \<not> KVS_MALLOC w (snd s) (sizeof_AudioTrackInfo_t w)
          then (295, Some a, (fst s, snd s @ [Malloc (sizeof_AudioTrackInfo_t w) 0,
                                              LogError ''OOM: pAudioTrackInfo'']))
          else
            (case alloc (fst s) (TrackInfoObj zero_track_info) of
               (p, h1) \<Rightarrow>
                 let ti = zero_track_info\<lparr>pTrackName := AUDIO_TRACK_NAME w,
                            pCodecName := AUDIO_CODEC_NAME w,
                            uFrequency := sampleRate (xAudioConf a),
                            uChannelNumber := channelNumber (xAudioConf a)\<rparr>;
                     h2 = store h1 p (TrackInfoObj ti);
                     t1 = snd s @ [Malloc (sizeof_AudioTrackInfo_t w) p]
                 in (case Mkv_generateAacCodecPrivateData w t1 (AUDIO_MPEG_OBJECT_TYPE w)
                            (uFrequency ti) (uChannelNumber ti) of
                       (rc, blob) \<Rightarrow>
                         if rc \<noteq> 0
                         then (309, Some a,
                               (free h2 p, t1 @ [GenerateCodecPrivate rc 0,
                                  LogError ''Failed to generate codec private data'', Free p]))
                         else
                           (case alloc h2 (Bytes blob) of
                              (q, h3) \<Rightarrow>
                                (0, Some (a\<lparr>pAudioTrackInfo := p\<rparr>),
                                 (store h3 p (TrackInfoObj (ti\<lparr>pCodecPrivate := q,
                                      uCodecPrivateLen := of_nat (length blob)\<rparr>)),
                                  t1 @ [GenerateCodecPrivate rc q]))))))"

text \<open>
  \<open>initAacEncoder\<close>.  \<open>AacEncoder_create\<close> stores the PCM buffer size through its last
  argument; the two buffers are allocated after it; the encoder handle is stored in the
  structure only when everything succeeded.
\<close>

definition initAacEncoder ::
  "world \<Rightarrow> T31Audio option \<Rightarrow> state \<Rightarrow> c_int \<times> T31Audio option \<times> state" where
  "initAacEncoder w pAudio s =
     (case pAudio of
        None \<Rightarrow> (341, None, (fst s, snd s @ [LogError ''Invalid parameter'']))
      | Some a \<Rightarrow>
          (case AacEncoder_create w (snd s) (sampleRate (xAudioConf a)) (channel (xAudioConf a))
                  (bitRate (xAudioConf a)) (AAC_OBJECT_TYPE_AAC_LC w) of
             (created, sz) \<Rightarrow>
               if \<not> created
               then (348, Some (a\<lparr>uPcmBufSize := sz\<rparr>),
                     (fst s, snd s @ [EncoderCreate 0 sz, LogError ''Failed to init aac encoder'']))
               else
                 (case alloc (fst s) EncoderObj of
                    (e, h1) \<Rightarrow>
                      let a1 = a\<lparr>uPcmBufSize := sz, uPcmTimestamp := 0, uPcmOffset := 0\<rparr>;
                          t1 = snd s @ [EncoderCreate e sz]
                      in if \<not> KVS_MALLOC w t1 (unat sz)
                         then (358, Some (a1\<lparr>pPcmBuf := 0\<rparr>),
                               (h1, t1 @ [Malloc (unat sz) 0, LogError ''OOM: pPcmBuf'']))
                         else
                           (case alloc h1 (Bytes (replicate (unat sz) 0)) of
                              (pb, h2) \<Rightarrow>
                                let a2 = a1\<lparr>pPcmBuf := pb\<rparr>;
                                    t2 = t1 @ [Malloc (unat sz) pb]
                                in if \<not> KVS_MALLOC w t2 (unat (xFrameBufSize a))
                                   then (363, Some (a2\<lparr>pFrameBuf := 0\<rparr>),
                                         (h2, t2 @ [Malloc (unat (xFrameBufSize a)) 0,
                                                    LogError ''OOM: pFrameBuf'']))
                                   else
                                     (case alloc h2 (Bytes (replicate (unat (xFrameBufSize a)) 0)) of
                                        (pf, h3) \<Rightarrow>
                                          (0, Some (a2\<lparr>pFrameBuf := pf, xAacEncHandle := e\<rparr>),
                                           (h3, t2 @ [Malloc (unat (xFrameBufSize a)) pf])))))))"

text \<open>
  The busy wait of lines 439 to 442 on the structure at \<open>p\<close>.  While this thread sleeps
  the other threads run: \<open>others i\<close> is what they do to the heap during the \<open>i\<close>-th
  sleep.  The wait need not end, so it lives in the option monad.
\<close>

partial_function (option) waitTerminated ::
  "(nat \<Rightarrow> heap \<Rightarrow> heap) \<Rightarrow> addr \<Rightarrow> nat \<Rightarrow> state \<Rightarrow> (fault + state) option" where
  "waitTerminated others p i s =
     (case lookup (fst s) p of
        Some (AudioObj a) \<Rightarrow>
          if \<not> isTerminated a
          then waitTerminated others p (Suc i) (others i (fst s), snd s @ [Sleep 10])
          else Some (Inr s)
      | _ \<Rightarrow> Some (Inl BadPointer))"

text \<open>\<open>T31Audio_terminate\<close>.  The handle is the address of the structure, \<open>0\<close> for \<open>NULL\<close>.\<close>

definition T31Audio_terminate ::
  "(nat \<Rightarrow> heap \<Rightarrow> heap) \<Rightarrow> addr \<Rightarrow> state \<Rightarrow> (fault + state) option" where
  "T31Audio_terminate others handle s =
     (if handle \<noteq> 0 then
        (case lookup (fst s) handle of
           Some (AudioObj a) \<Rightarrow>
             (case waitTerminated others handle 0
                     (store (fst s) handle (AudioObj (a\<lparr>isTerminating := True\<rparr>)),
                      snd s @ [StoreIsTerminating]) of
                None \<Rightarrow> None
              | Some (Inl e) \<Rightarrow> Some (Inl e)
              | Some (Inr s2) \<Rightarrow>
                  (case lookup (fst s2) handle of
                     Some (AudioObj a2) \<Rightarrow>
                       Some (Inr (free (fst s2) handle, snd s2 @ [ThreadJoin (tid a2), Free handle]))
                   | _ \<Rightarrow> Some (Inl BadPointer)))
         | _ \<Rightarrow> Some (Inl BadPointer))
      else Some (Inr s))"

text \<open>
  Lines 396 to 420 of \<open>T31Audio_create\<close>: the chain of initialisation steps on the
  structure, with the \<open>res\<close> it ends with.
\<close>

definition createSteps :: "world \<Rightarrow> T31Audio \<Rightarrow> state \<Rightarrow> c_int \<times> T31Audio \<times> state" where
  "createSteps w a s =
     (if \<not> Lock_Init w (snd s)
      then (399, a\<lparr>lock := 0\<rparr>, (fst s, snd s @ [LockInit 0, LogError ''Failed to initialize lock'']))
      else
        (case alloc (fst s) LockObj of
           (l, h1) \<Rightarrow>
             (case audioConfigurationInit (Some (xAudioConf a)) (snd s @ [LockInit l]) of
                (rc1, pc, t1) \<Rightarrow>
                  let a1 = a\<lparr>lock := l, xAudioConf := (case pc of Some c \<Rightarrow> c | None \<Rightarrow> xAudioConf a)\<rparr>
                  in if rc1 \<noteq> 0
                     then (404, a1, (h1, t1 @ [LogError ''failed to init audio configuration'']))
                     else
                       (case initAudioTrackInfo w (Some a1) (h1, t1) of
                          (rc2, pa2, s2) \<Rightarrow>
                            let a2 = (case pa2 of Some x \<Rightarrow> x | None \<Rightarrow> a1)
                            in if rc2 \<noteq> 0
                               then (409, a2, (fst s2, snd s2 @ [LogError ''Failed to init audio track info'']))
                               else
                                 (case initAacEncoder w (Some a2) s2 of
                                    (rc3, pa3, s3) \<Rightarrow>
                                      let a3 = (case pa3 of Some x \<Rightarrow> x | None \<Rightarrow> a2)
                                      in if rc3 \<noteq> 0
                                         then (414, a3, (fst s3, snd s3 @ [LogError ''Failed to init aac encoder'']))
                                         else
                                           (case pthread_create w (snd s3) of
                                              (rc4, t) \<Rightarrow>
                                                if rc4 \<noteq> 0
                                                then (419, a3, (fst s3, snd s3 @ [ThreadCreate rc4 0,
                                                        LogError ''Failed to create video thread'']))
                                                else (0, a3\<lparr>tid := t\<rparr>,
                                                      (fst s3, snd s3 @ [ThreadCreate rc4 t]))))))))"

text \<open>
  \<open>T31Audio_create\<close>.  The result is the handle, \<open>0\<close> for \<open>NULL\<close>.  On the failure path
  \<open>T31Audio_terminate\<close> runs before any worker exists and before the handle is known to
  anyone else, so no other thread touches the structure while it waits.
\<close>

definition T31Audio_create :: "world \<Rightarrow> addr \<Rightarrow> state \<Rightarrow> (fault + addr \<times> state) option" where
  "T31Audio_create w kvsAppHandle' s =
     (if \<not> KVS_MALLOC w (snd s) (sizeof_T31Audio_t w)
      then Some (Inr (0, (fst s, snd s @ [Malloc (sizeof_T31Audio_t w) 0, LogError ''OOM: pAudio''])))
      else
        (case alloc (fst s) (AudioObj zero_audio) of
           (pAudio, h1) \<Rightarrow>
             (case createSteps w
                     (zero_audio\<lparr>isTerminating := False, isTerminated := False,
                                  kvsAppHandle := kvsAppHandle', xFrameBufSize := 8 * 1024\<rparr>)
                     (h1, snd s @ [Malloc (sizeof_T31Audio_t w) pAudio]) of
                (res, a, s1) \<Rightarrow>
                  if res \<noteq> 0
                  then (case T31Audio_terminate (\<lambda>i h. h) pAudio (store (fst s1) pAudio (AudioObj a), snd s1) of
                          None \<Rightarrow> None
                        | Some (Inl e) \<Rightarrow> Some (Inl e)
                        | Some (Inr s2) \<Rightarrow> Some (Inr (0, s2)))
                  else Some (Inr (pAudio, (store (fst s1) pAudio (AudioObj a), snd s1))))))"


section \<open>Reading the state\<close>

text \<open>The byte buffer at an address, if there is one.\<close>

definition bytes_at :: "heap \<Rightarrow> addr \<Rightarrow> byte list option" where
  "bytes_at h p = (case lookup h p of Some (Bytes b) \<Rightarrow> Some b | _ \<Rightarrow> None)"

text \<open>The contents of the PCM buffer, and the part of it below the fill offset.\<close>

definition pcm :: "heap \<Rightarrow> T31Audio \<Rightarrow> byte list" where
  "pcm h a = (case bytes_at h (pPcmBuf a) of Some b \<Rightarrow> b | None \<Rightarrow> [])"

definition pending :: "heap \<Rightarrow> T31Audio \<Rightarrow> byte list" where
  "pending h a = take (unat (uPcmOffset a)) (pcm h a)"

text \<open>The \<open>len\<close> bytes of a device frame.\<close>

definition frame_bytes :: "IMPAudioFrame \<Rightarrow> byte list" where
  "frame_bytes f = take (unat (len f)) (virAddr f)"

text \<open>The PCM blocks passed to the encoder, in call order.\<close>

fun encoded :: "trace \<Rightarrow> byte list list" where
  "encoded [] = []"
| "encoded (Encode e b n # es) = b # encoded es"
| "encoded (_ # es) = encoded es"

text \<open>
  The timestamps passed to \<open>KvsApp_addFrame\<close>, each with the number of encoder calls
  made before it, counted from \<open>k\<close>.
\<close>

fun stamps :: "nat \<Rightarrow> trace \<Rightarrow> (nat \<times> uint64_t) list" where
  "stamps k [] = []"
| "stamps k (Encode e b n # es) = stamps (Suc k) es"
| "stamps k (AddFrame kh p d n m ts t # es) = (k, ts) # stamps k es"
| "stamps k (_ # es) = stamps k es"

text \<open>The first \<open>length xs div n\<close> blocks of \<open>n\<close> elements of a list.\<close>

definition chunks :: "nat \<Rightarrow> 'a list \<Rightarrow> 'a list list" where
  "chunks n xs = map (\<lambda>i. take n (drop (i * n) xs)) [0..<length xs div n]"

text \<open>
  What \<open>initAacEncoder\<close> establishes and \<open>sendAudioFrame\<close> keeps: the PCM buffer has
  \<open>uPcmBufSize\<close> bytes, the frame buffer \<open>xFrameBufSize\<close> bytes, they are different
  blocks, the fill offset is below the capacity, and the divisor of line 198 is not zero.
\<close>

definition audio_ok :: "heap \<Rightarrow> T31Audio \<Rightarrow> bool" where
  "audio_ok h a =
     (map_option length (bytes_at h (pPcmBuf a)) = Some (unat (uPcmBufSize a)) \<and>
      map_option length (bytes_at h (pFrameBuf a)) = Some (unat (xFrameBufSize a)) \<and>
      pPcmBuf a \<noteq> pFrameBuf a \<and> uPcmOffset a < uPcmBufSize a \<and>
      sampleRate (xAudioConf a) * 2 \<noteq> 0)"

text \<open>
  The encoder's side of the contract: it writes no more than the capacity it was given,
  and on success it reports a length within that capacity.
\<close>

definition encoder_ok :: "world \<Rightarrow> T31Audio \<Rightarrow> bool" where
  "encoder_ok w a =
     (\<forall>tr b. case AacEncoder_encode w tr (xAacEncHandle a) b (uPcmBufSize a) (xFrameBufSize a) of
         (rc, out, n) \<Rightarrow> length out \<le> unat (xFrameBufSize a) \<and>
                          (rc = 0 \<longrightarrow> unat n \<le> unat (xFrameBufSize a)))"

text \<open>
  A frame as the device delivers it: \<open>virAddr\<close> is a byte pointer, \<open>len\<close> is not
  negative, and \<open>len\<close> bytes are readable.
\<close>

definition frame_ok :: "world \<Rightarrow> IMPAudioFrame \<Rightarrow> bool" where
  "frame_ok w f = (sizeof_virAddr_elem w = 1 \<and> 0 \<le>s len f \<and> unat (len f) \<le> length (virAddr f))"

text \<open>
  The bytes absorbed but not yet encoded when the loop stands at \<open>xFrameOffset = x\<close>,
  followed by the bytes of the frame still to be absorbed.
\<close>

definition backlog :: "heap \<Rightarrow> T31Audio \<Rightarrow> IMPAudioFrame \<Rightarrow> c_int \<Rightarrow> byte list" where
  "backlog h a f x = pending h a @ drop (unat x) (frame_bytes f)"

text \<open>
  What one run of the loop achieves, from the structure \<open>a\<close> and the backlog \<open>D\<close> it
  starts with: only the fill offset and the timestamp change; the full blocks of \<open>D\<close>
  go to the encoder in order and the rest stays below the fill offset; the timestamp
  advances once per block; a frame submitted after the \<open>j\<close>-th encoder call carries the
  timestamp of the \<open>j\<close>-th block.
\<close>

definition loop_post ::
  "nat \<Rightarrow> T31Audio \<Rightarrow> byte list \<Rightarrow> T31Audio \<Rightarrow> heap \<Rightarrow> trace \<Rightarrow> bool" where
  "loop_post k a D a' h' tr2 =
     (a'\<lparr>uPcmOffset := 0, uPcmTimestamp := 0\<rparr> = a\<lparr>uPcmOffset := 0, uPcmTimestamp := 0\<rparr> \<and>
      unat (uPcmOffset a') = length D mod unat (uPcmBufSize a) \<and>
      uPcmTimestamp a' = uPcmTimestamp a + of_nat (length D div unat (uPcmBufSize a)) * timediff a \<and>
      audio_ok h' a' \<and>
      encoded tr2 = chunks (unat (uPcmBufSize a)) D \<and>
      pending h' a' = drop (length D - length D mod unat (uPcmBufSize a)) D \<and>
      (\<forall>(j, ts) \<in> set (stamps k tr2). k < j \<and> ts = uPcmTimestamp a + of_nat (j - Suc k) * timediff a))"

text \<open>
  Successive calls of \<open>sendAudioFrame\<close> on one handle, one per device frame, each with
  the wall-clock reading of its moment: what the capture loop does with the frames it
  receives.
\<close>

fun sendFrames ::
  "world \<Rightarrow> (uint64_t \<times> IMPAudioFrame) list \<Rightarrow> T31Audio \<Rightarrow> state \<Rightarrow> (fault + T31Audio \<times> state) option" where
  "sendFrames w [] a s = Some (Inr (a, s))"
| "sendFrames w (nf # fs) a s =
     (case sendAudioFrame w (fst nf) (Some a) (Some (snd nf)) s of
        None \<Rightarrow> None
      | Some (Inl e) \<Rightarrow> Some (Inl e)
      | Some (Inr (rc, pa, s')) \<Rightarrow>
          (case pa of None \<Rightarrow> Some (Inl NullDeref) | Some a' \<Rightarrow> sendFrames w fs a' s'))"

text \<open>All the bytes of a list of frames, in order.\<close>

definition frames_bytes :: "(uint64_t \<times> IMPAudioFrame) list \<Rightarrow> byte list" where
  "frames_bytes fs = concat (map (\<lambda>nf. frame_bytes (snd nf)) fs)"

text \<open>The total of the \<open>len\<close> fields of a list of frames.\<close>

definition frames_len :: "(uint64_t \<times> IMPAudioFrame) list \<Rightarrow> nat" where
  "frames_len fs = sum_list (map (\<lambda>nf. unat (len (snd nf))) fs)"

text \<open>
  The fill offsets at which successive frames of the given lengths are entered, from
  capacity \<open>c\<close> and first offset \<open>off\<close>.
\<close>

fun entry_offsets :: "nat \<Rightarrow> nat \<Rightarrow> nat list \<Rightarrow> nat list" where
  "entry_offsets c off [] = []"
| "entry_offsets c off (l # ls) = off # entry_offsets c ((off + l) mod c) ls"

section \<open>A small configuration for concrete runs\<close>

text \<open>
  A handle whose PCM buffer (address 1) holds 64 bytes and whose frame buffer
  (address 2) holds eight, a world in which every collaborator succeeds (the encoder
  with a three-byte frame), and two frames of 40 and 100 bytes.
\<close>

definition conf0 :: AudioConfiguration where
  "conf0 = \<lparr>devID = 1, chnID = 0,
     attr = \<lparr>samplerate = AUDIO_SAMPLE_RATE_16000, bitwidth = AUDIO_BIT_WIDTH_16,
              soundmode = AUDIO_SOUND_MODE_MONO, frmNum = 40, numPerFrm = 640, chnCnt = 1\<rparr>,
     chnParam = \<lparr>usrFrmDepth = 40\<rparr>, chnVol = 60, aigain = 28, channelNumber = 1,
     sampleRate = 16000, channel = 1, bitRate = 128000\<rparr>"

definition audio0 :: T31Audio where
  "audio0 = \<lparr>lock = 3, tid = 0, isTerminating = False, isTerminated = False,
     kvsAppHandle = 9, pAudioTrackInfo = 0, xAudioConf = conf0, xAacEncHandle = 4,
     uPcmTimestamp = 0, pPcmBuf = 1, uPcmOffset = 0, uPcmBufSize = 64,
     pFrameBuf = 2, xFrameBufSize = 8\<rparr>"

definition heap0 :: heap where
  "heap0 = \<lparr>cells = (\<lambda>_. None)(1 := Some (Bytes (replicate 64 0)),
                                     2 := Some (Bytes [0, 0, 0, 0, 0, 0, 0, 0]),
                                     3 := Some LockObj, 4 := Some EncoderObj),
            brk = 4\<rparr>"

definition world0 :: world where
  "world0 = \<lparr>sizeof_virAddr_elem = 1, sizeof_T31Audio_t = 120, sizeof_AudioTrackInfo_t = 24,
     AUDIO_TRACK_NAME = ''audio'', AUDIO_CODEC_NAME = ''A_AAC'',
     AUDIO_MPEG_OBJECT_TYPE = 2, AAC_OBJECT_TYPE_AAC_LC = 2,
     AacEncoder_encode = (\<lambda>tr e b n m. (0, [7, 8, 9], 3)),
     KVS_MALLOC = (\<lambda>tr n. True),
     Lock_Init = (\<lambda>tr. True),
     Lock = (\<lambda>tr l. True),
     Mkv_generateAacCodecPrivateData = (\<lambda>tr t f c. (0, [20, 8])),
     AacEncoder_create = (\<lambda>tr r c b t. (True, 64)),
     pthread_create = (\<lambda>tr. (0, 77))\<rparr>"

definition frames0 :: "(uint64_t \<times> IMPAudioFrame) list" where
  "frames0 = [(1000, \<lparr>virAddr = replicate 40 1, len = 40\<rparr>),
              (2000, \<lparr>virAddr = replicate 100 2, len = 100\<rparr>)]"

text \<open>
  Frames for the block-count scenarios: 40 and 88 bytes (twice the capacity 64), one
  frame of 160 bytes (two and a half times 64), and the handle with capacity 1280 with
  frames of 700, 900 and 2500 bytes.
\<close>

definition frames_2blocks :: "(uint64_t \<times> IMPAudioFrame) list" where
  "frames_2blocks = [(1000, \<lparr>virAddr = replicate 40 1, len = 40\<rparr>),
                     (2000, \<lparr>virAddr = replicate 88 2, len = 88\<rparr>)]"

definition frames_spanning :: "(uint64_t \<times> IMPAudioFrame) list" where
  "frames_spanning = [(1000, \<lparr>virAddr = replicate 160 1, len = 160\<rparr>)]"

definition audio1280 :: T31Audio where
  "audio1280 = audio0\<lparr>uPcmBufSize := 1280\<rparr>"

definition heap1280 :: heap where
  "heap1280 = store heap0 1 (Bytes (replicate 1280 0))"

definition frames1280 :: "(uint64_t \<times> IMPAudioFrame) list" where
  "frames1280 = [(1000, \<lparr>virAddr = replicate 700 1, len = 700\<rparr>),
                 (2000, \<lparr>virAddr = replicate 900 2, len = 900\<rparr>),
                 (3000, \<lparr>virAddr = replicate 2500 3, len = 2500\<rparr>)]"

text \<open>
  Writing \<open>x\<close> over the start of \<open>b\<close>, and the contents of the PCM buffer after a run
  of the loop that starts with contents \<open>b0\<close> and backlog \<open>D\<close>: the last block written
  in full (or \<open>b0\<close>), with the remainder of \<open>D\<close> written over its start.
\<close>

definition overlay :: "'a list \<Rightarrow> 'a list \<Rightarrow> 'a list" where
  "overlay x b = x @ drop (length x) b"

definition final_pcm :: "nat \<Rightarrow> 'a list \<Rightarrow> 'a list \<Rightarrow> 'a list" where
  "final_pcm c b0 D = overlay (drop (length D - length D mod c) D) (last (b0 # chunks c D))"

text \<open>
  Three more worlds: the encoder fails, the encoder succeeds with an empty frame, and
  the allocator fails.
\<close>

definition world_enc_fail :: world where
  "world_enc_fail = world0\<lparr>AacEncoder_encode := (\<lambda>tr e b n m. (1, [], 0))\<rparr>"

definition world_enc_empty :: world where
  "world_enc_empty = world0\<lparr>AacEncoder_encode := (\<lambda>tr e b n m. (0, [], 0))\<rparr>"

definition world_oom :: world where
  "world_oom = world0\<lparr>KVS_MALLOC := (\<lambda>tr n. False)\<rparr>"

text \<open>The structure at \<open>p\<close> exists and its \<open>isTerminated\<close> flag is not set.\<close>

definition stuck :: "heap \<Rightarrow> addr \<Rightarrow> bool" where
  "stuck h p = (case lookup h p of Some (AudioObj a) \<Rightarrow> \<not> isTerminated a | _ \<Rightarrow> False)"


text \<open>
  A device whose calls all succeed, one whose channel cannot be enabled, an iteration in
  which the poll times out, and one in which a frame of 40 bytes is processed.
\<close>

definition dev0 :: device where
  "dev0 = \<lparr>rc_SetPubAttr = 0, rc_Enable = 0, rc_SetChnParam = 0, rc_EnableChn = 0,
            rc_SetVol = 0, rc_SetGain = 0, rc_DisableChn = 0, rc_Disable = 0\<rparr>"


definition timeout_it :: iteration where
  "timeout_it = \<lparr>it_terminates = False, it_poll = 1, it_get = 0,
                  it_frame = \<lparr>virAddr = [], len = 0\<rparr>, it_now = 0, it_release = 0\<rparr>"

definition frame_it :: iteration where
  "frame_it = \<lparr>it_terminates = False, it_poll = 0, it_get = 0,
                it_frame = \<lparr>virAddr = replicate 40 1, len = 40\<rparr>, it_now = 1000, it_release = 0\<rparr>"

text \<open>Worlds in which one creation step fails.\<close>

definition world_no_lock :: world where
  "world_no_lock = world0\<lparr>Lock_Init := (\<lambda>tr. False)\<rparr>"

definition world_no_thread :: world where
  "world_no_thread = world0\<lparr>pthread_create := (\<lambda>tr. (11, 0))\<rparr>"




text \<open>\<open>a'\<close> differs from \<open>a\<close> at most in the fill offset and the timestamp.\<close>

definition kept :: "T31Audio \<Rightarrow> T31Audio \<Rightarrow> bool" where
  "kept a a' = (a'\<lparr>uPcmOffset := 0, uPcmTimestamp := 0\<rparr> = a\<lparr>uPcmOffset := 0, uPcmTimestamp := 0\<rparr>)"










text \<open>
  The events of one completed block, as they follow the trace \<open>tr\<close>: the encoder call on
  the block, and then, according to what the encoder and the allocator answer to these
  very calls, either one successful allocation of the reported length and one
  \<open>KvsApp_addFrame\<close> of that buffer (of that length, with the timestamp \<open>ts\<close> and the audio
  track type), or nothing but log messages and a failed allocation.
\<close>

fun dropped_event :: "event \<Rightarrow> bool" where
  "dropped_event (LogError m) = True"
| "dropped_event (Malloc n p) = (p = 0)"
| "dropped_event _ = False"

definition submission :: "T31Audio \<Rightarrow> uint64_t \<Rightarrow> byte list \<Rightarrow> size_t \<Rightarrow> trace \<Rightarrow> bool" where
  "submission a ts out m ev =
     (case ev of
        [x, y] \<Rightarrow>
          (case x of
             Malloc k p \<Rightarrow>
               (case y of
                  AddFrame kh q dat l1 l2 t ty \<Rightarrow>
                    k = unat m \<and> p \<noteq> 0 \<and> q = p \<and> kh = kvsAppHandle a \<and> length dat = unat m \<and>
                    take (length out) dat = take (unat m) out \<and>
                    l1 = m \<and> l2 = m \<and> t = ts \<and> ty = TRACK_AUDIO
                | _ \<Rightarrow> False)
           | _ \<Rightarrow> False)
      | _ \<Rightarrow> False)"

definition block_ok :: "world \<Rightarrow> T31Audio \<Rightarrow> uint64_t \<Rightarrow> trace \<Rightarrow> trace \<Rightarrow> bool" where
  "block_ok w a ts tr g =
     (case g of
        [] \<Rightarrow> False
      | x # ev \<Rightarrow>
          (case x of
             Encode e b n \<Rightarrow>
               e = xAacEncHandle a \<and> n = uPcmBufSize a \<and>
               (case AacEncoder_encode w tr e b n (xFrameBufSize a) of
                  (rc, out, m) \<Rightarrow>
                    if rc = 0 \<and> m \<noteq> 0 \<and> KVS_MALLOC w (tr @ [x]) (unat m)
                    then submission a ts out m ev
                    else list_all dropped_event ev)
           | _ \<Rightarrow> False))"

text \<open>
  The events of successive blocks: each group is the events of one block, after the
  trace extended by the groups before it, with the timestamp advanced by \<open>timediff\<close> from
  block to block.
\<close>

fun runs_ok :: "world \<Rightarrow> T31Audio \<Rightarrow> uint64_t \<Rightarrow> trace \<Rightarrow> trace list \<Rightarrow> bool" where
  "runs_ok w a ts tr [] = True"
| "runs_ok w a ts tr (g # gs) = (block_ok w a ts tr g \<and> runs_ok w a (ts + timediff a) (tr @ g) gs)"

text \<open>
  An encoder that fails on its first call and succeeds afterwards, and an iteration of
  the capture loop that delivers one frame of 160 bytes.
\<close>

definition world_flaky :: world where
  "world_flaky = world0\<lparr>AacEncoder_encode :=
     (\<lambda>tr e b n m. if encoded tr = [] then (1, [], 0) else (0, [7, 8, 9], 3))\<rparr>"

definition spanning_it :: iteration where
  "spanning_it = frame_it\<lparr>it_frame := \<lparr>virAddr = replicate 160 1, len = 160\<rparr>\<rparr>"

section \<open>Arithmetic of the loop on 32-bit words\<close>

lemma uint_lt_iff:
  fixes l :: "32 word"
  shows "(uint l < 2147483648) = (unat l < 2147483648)"
  by (simp only: uint_nat of_nat_less_numeral_iff)

lemma sint_small:
  fixes l :: "32 word"
  assumes "unat l < 2147483648"
  shows "sint l = uint l"
proof -
  have "uint l < 2 ^ 31" using assms by (simp add: uint_lt_iff)
  moreover have "- (2 ^ 31) \<le> uint l"
    by (rule order_trans [of _ 0]) simp_all
  ultimately have "signed_take_bit 31 (uint l) = uint l"
    by (rule signed_take_bit_int_eq_self [rotated])
  then show ?thesis
    by (simp add: sint_uint)
qed

lemma sint_big:
  fixes l :: "32 word"
  assumes "\<not> unat l < 2147483648"
  shows "sint l < 0"
proof -
  have "2^31 \<le> uint l" using assms uint_lt_iff[of l] by simp
  moreover have "uint l < 2^32" using uint_lt2p[of l] by simp
  ultimately have k: "0 \<le> uint l - 2147483648" "uint l - 2147483648 < 4294967296"
    by simp_all
  have "uint l + 2147483648 = (uint l - 2147483648) + 4294967296" by simp
  then have "(uint l + 2147483648) mod 4294967296 = (uint l - 2147483648) mod 4294967296"
    by (simp only: mod_add_self2)
  also have "\<dots> = uint l - 2147483648"
    using k by (rule mod_pos_pos_trivial)
  finally show ?thesis using \<open>uint l < 2^32\<close>
    by (simp add: sint_uint signed_take_bit_eq_take_bit_shift take_bit_eq_mod)
qed

lemma sle0_iff:
  fixes l :: "32 word"
  shows "0 \<le>s l \<longleftrightarrow> unat l < 2147483648"
proof (cases "unat l < 2147483648")
  case True
  then show ?thesis using sint_small[OF True] by (simp add: word_sle_eq)
next
  case False
  then show ?thesis using sint_big[OF False] by (simp add: word_sle_eq)
qed

lemma loop_words:
  fixes x l :: "32 word"
  assumes "0 \<le>s l" "x \<le> l"
  shows "\<not> sint x < 0" "nat (sint x) = unat x" "(x <s l) = (unat x < unat l)"
    "unat (l - x) = unat l - unat x"
proof -
  have l: "unat l < 2147483648" using assms(1) by (simp add: sle0_iff)
  have xl: "unat x \<le> unat l" using assms(2) by (simp add: word_le_nat_alt)
  then have x: "unat x < 2147483648" using l by simp
  show "\<not> sint x < 0" "nat (sint x) = unat x" 
    using sint_small[OF x] by simp_all
  show "(x <s l) = (unat x < unat l)"
    using sint_small[OF x] sint_small[OF l] by (simp add: word_sless_alt word_less_nat_alt[symmetric] word_less_def)
  show "unat (l - x) = unat l - unat x" using assms(2) by (rule unat_sub)
qed

lemma step_small:
  fixes x l off cap :: "32 word"
  assumes "x \<le> l" "off < cap" "l - x < cap - off"
  shows "unat (off + (l - x)) = unat off + (unat l - unat x)" 
   "off + (l - x) < cap"
  using assms by unat_arith+

lemma step_small2:
  fixes x l :: "32 word"
  shows "x + (l - x) = l" 
  by simp

lemma step_big:
  fixes x l off cap :: "32 word"
  assumes "x \<le> l" "off < cap" "\<not> l - x < cap - off"
  shows "unat (x + (cap - off)) = unat x + (unat cap - unat off)" "x + (cap - off) \<le> l"
   "unat (cap - off) = unat cap - unat off" "unat cap - unat off \<le> unat l - unat x"
  using assms by unat_arith+

lemma cmp_nat:
  fixes x l off cap :: "32 word"
  assumes "x \<le> l" "off < cap" 
  shows "(l - x < cap - off) = (unat l - unat x < unat cap - unat off)"
  using assms by unat_arith

section \<open>Heap and trace lemmas\<close>

lemma lookup_store: "lookup (store h p v) q = (if 0 < q \<and> q \<le> brk h then (if q = p then Some v else cells h q) else None)"
  by (simp add: lookup_def store_def)

lemma lookup_store_same: "lookup h p = Some v0 \<Longrightarrow> lookup (store h p v) p = Some v"
  by (simp add: lookup_def store_def split: if_splits)

lemma lookup_store_other: "q \<noteq> p \<Longrightarrow> lookup (store h p v) q = lookup h q"
  by (simp add: lookup_def store_def)

lemma brk_store: "brk (store h p v) = brk h"
  by (simp add: store_def)

lemma lookup_alloc_new: "alloc h v = (p, h') \<Longrightarrow> lookup h' p = Some v"
  by (auto simp: lookup_def alloc_def)

lemma lookup_alloc_old: "alloc h v = (p, h') \<Longrightarrow> lookup h q = Some x \<Longrightarrow> lookup h' q = Some x"
  by (auto simp: lookup_def alloc_def split: if_splits)

lemma alloc_fresh: "alloc h v = (p, h') \<Longrightarrow> lookup h p = None \<and> p \<noteq> 0 \<and> brk h' = Suc (brk h)"
  by (auto simp: lookup_def alloc_def)

lemma encoded_append: "encoded (xs @ ys) = encoded xs @ encoded ys"
  by (induction xs rule: encoded.induct) simp_all

lemma stamps_append: "stamps k (xs @ ys) = stamps k xs @ stamps (k + length (encoded xs)) ys"
  by (induction k xs rule: stamps.induct) simp_all

lemma encodeBlock_ok:
  assumes enc: "encoder_ok w a"
    and P: "lookup h (pPcmBuf a) = Some (Bytes b)" "length b = unat (uPcmBufSize a)"
    and F: "lookup h (pFrameBuf a) = Some (Bytes fb)" "length fb = unat (xFrameBufSize a)"
    and ne: "pPcmBuf a \<noteq> pFrameBuf a"
  shows "\<exists>h' ev fb'. encodeBlock w a (h, tr) = Inr (h', tr @ ev) \<and>
           lookup h' (pPcmBuf a) = Some (Bytes b) \<and>
           lookup h' (pFrameBuf a) = Some (Bytes fb') \<and> length fb' = length fb \<and>
           encoded ev = [b] \<and> set (stamps k ev) \<subseteq> {(Suc k, uPcmTimestamp a)}"
proof -
  obtain rc out n where o: "AacEncoder_encode w tr (xAacEncHandle a) b (uPcmBufSize a) (xFrameBufSize a) = (rc, out, n)"
    by (cases "AacEncoder_encode w tr (xAacEncHandle a) b (uPcmBufSize a) (xFrameBufSize a)") auto
  from enc have c: "length out \<le> unat (xFrameBufSize a)" "rc = 0 \<Longrightarrow> unat n \<le> unat (xFrameBufSize a)"
    unfolding encoder_ok_def using o by (auto split: prod.splits dest!: spec[of _ tr] spec[of _ b])
  show ?thesis
    using P F ne o c
    apply (simp add: encodeBlock_def Let_def memcpy_def split: prod.splits)
    apply (auto simp: lookup_store_other lookup_store_same alloc_def lookup_def store_def split: if_splits)
    done
qed

lemma chunks_short: "length xs < n \<Longrightarrow> chunks n xs = []"
  by (simp add: chunks_def)

lemma chunks_append_block:
  assumes "length x = n" "0 < n"
  shows "chunks n (x @ ys) = x # chunks n ys"
proof -
  have d: "length (x @ ys) div n = Suc (length ys div n)"
    using assms by (simp add: div_add_self1)
  show ?thesis
    unfolding chunks_def d
    using assms by (simp add: upt_conv_Cons map_Suc_upt [symmetric] del: upt_Suc)
qed

lemma frameCopy_ok:
  assumes "frame_ok w f" "x \<le> len f"
    and "lookup h (pPcmBuf a) = Some (Bytes b)"
    and "unat (uPcmOffset a) + unat n \<le> length b" "unat x + unat n \<le> unat (len f)"
  shows "frameCopy w h a f x n =
           Inr (store h (pPcmBuf a)
                  (Bytes (take (unat (uPcmOffset a)) b @ take (unat n) (drop (unat x) (frame_bytes f))
                          @ drop (unat (uPcmOffset a) + unat n) b)))"
proof -
  have l: "0 \<le>s len f" "sizeof_virAddr_elem w = 1" "unat (len f) \<le> length (virAddr f)"
    using assms(1) by (simp_all add: frame_ok_def)
  have "take (unat n) (drop (unat x) (frame_bytes f)) = take (unat n) (drop (unat x) (virAddr f))"
    using assms(5) by (simp add: frame_bytes_def drop_take min_def)
  then show ?thesis
    using assms(3-5) l loop_words(1,2)[OF l(1) assms(2)]
    by (simp add: frameCopy_def memcpy_def)
qed

lemma bytes_at_Some: "bytes_at h p = Some b \<longleftrightarrow> lookup h p = Some (Bytes b)"
  by (simp add: bytes_at_def split: option.splits obj.splits)

lemma audio_okD:
  assumes "audio_ok h a"
  obtains b fb where "lookup h (pPcmBuf a) = Some (Bytes b)" "length b = unat (uPcmBufSize a)"
    "lookup h (pFrameBuf a) = Some (Bytes fb)" "length fb = unat (xFrameBufSize a)"
    "pPcmBuf a \<noteq> pFrameBuf a" "uPcmOffset a < uPcmBufSize a" "sampleRate (xAudioConf a) * 2 \<noteq> 0"
  using assms by (auto simp: audio_ok_def bytes_at_Some)

lemma audio_okI:
  assumes "lookup h (pPcmBuf a) = Some (Bytes b)" "length b = unat (uPcmBufSize a)"
    "lookup h (pFrameBuf a) = Some (Bytes fb)" "length fb = unat (xFrameBufSize a)"
    "pPcmBuf a \<noteq> pFrameBuf a" "uPcmOffset a < uPcmBufSize a" "sampleRate (xAudioConf a) * 2 \<noteq> 0"
  shows "audio_ok h a"
  using assms by (simp add: audio_ok_def bytes_at_def)

lemma sendLoop_exit:
  "\<not> x <s len f \<Longrightarrow> sendLoop w f x a s = Some (Inr (a, s))"
  by (subst sendLoop.simps) simp

lemma sendLoop_small:
  assumes "x <s len f" "len f - x < uPcmBufSize a - uPcmOffset a"
    "frameCopy w h a f x (len f - x) = Inr h1"
  shows "sendLoop w f x a (h, tr) =
           sendLoop w f (x + (len f - x)) (a\<lparr>uPcmOffset := uPcmOffset a + (len f - x)\<rparr>) (h1, tr)"
  using assms by (subst sendLoop.simps) (simp add: Let_def)

lemma sendLoop_big:
  assumes "x <s len f" "\<not> len f - x < uPcmBufSize a - uPcmOffset a"
    "frameCopy w h a f x (uPcmBufSize a - uPcmOffset a) = Inr h1"
    "encodeBlock w (a\<lparr>uPcmOffset := 0\<rparr>) (h1, tr) = Inr s2"
    "sampleRate (xAudioConf a) * 2 \<noteq> 0"
  shows "sendLoop w f x a (h, tr) =
           sendLoop w f (x + (uPcmBufSize a - uPcmOffset a))
             (a\<lparr>uPcmOffset := 0, uPcmTimestamp := uPcmTimestamp a + timediff a\<rparr>) s2"
  using assms by (subst sendLoop.simps) (simp add: Let_def)

lemma pcm_eq: "lookup h (pPcmBuf a) = Some (Bytes b) \<Longrightarrow> pcm h a = b"
  by (simp add: pcm_def bytes_at_def)

lemma encoder_ok_upd [simp]:
  "encoder_ok w (a\<lparr>uPcmOffset := x\<rparr>) = encoder_ok w a"
  "encoder_ok w (a\<lparr>uPcmTimestamp := y\<rparr>) = encoder_ok w a"
  by (simp_all add: encoder_ok_def)

lemma timediff_upd [simp]:
  "timediff (a\<lparr>uPcmOffset := x\<rparr>) = timediff a"
  "timediff (a\<lparr>uPcmTimestamp := y\<rparr>) = timediff a"
  by (simp_all add: timediff_def)

lemma loop_post_exit:
  assumes "audio_ok h a"
  shows "loop_post k a (pending h a) a h []"
proof -
  have "uPcmOffset a < uPcmBufSize a" using assms(1) by (simp add: audio_ok_def)
  then have o: "unat (uPcmOffset a) < unat (uPcmBufSize a)" by (simp add: word_less_nat_alt)
  obtain b where b: "lookup h (pPcmBuf a) = Some (Bytes b)" "length b = unat (uPcmBufSize a)"
    using assms(1) by (rule audio_okD)
  have l: "length (pending h a) = unat (uPcmOffset a)"
    using o b by (simp add: pending_def pcm_eq[OF b(1)])
  have c: "chunks (unat (uPcmBufSize a)) (pending h a) = []"
    using o l by (simp add: chunks_short)
  show ?thesis
    unfolding loop_post_def l c using o assms by simp
qed

lemma loop_post_small:
  assumes "loop_post k (a\<lparr>uPcmOffset := z\<rparr>) D a' h' tr2"
  shows "loop_post k a D a' h' tr2"
  using assms by (simp add: loop_post_def)

lemma loop_post_big:
  assumes p: "loop_post (Suc k) (a\<lparr>uPcmOffset := 0, uPcmTimestamp := uPcmTimestamp a + timediff a\<rparr>) D2 a' h' tr2"
    and b1: "length b1 = unat (uPcmBufSize a)" "0 < unat (uPcmBufSize a)"
    and ev: "encoded ev = [b1]" "set (stamps k ev) \<subseteq> {(Suc k, uPcmTimestamp a)}"
  shows "loop_post k a (b1 @ D2) a' h' (ev @ tr2)"
proof -
  let ?c = "unat (uPcmBufSize a)"
  have dm: "length (b1 @ D2) div ?c = Suc (length D2 div ?c)" "length (b1 @ D2) mod ?c = length D2 mod ?c"
    using b1 by (simp_all add: div_add_self1)
  have "length D2 mod ?c \<le> length D2" by (rule mod_less_eq_dividend)
  then have dr: "length (b1 @ D2) - length D2 mod ?c = ?c + (length D2 - length D2 mod ?c)"
    using b1 by simp
  from p have p1: "a'\<lparr>uPcmOffset := 0, uPcmTimestamp := 0\<rparr> = a\<lparr>uPcmOffset := 0, uPcmTimestamp := 0\<rparr>"
    and p2: "unat (uPcmOffset a') = length D2 mod ?c"
    and p3: "uPcmTimestamp a' = uPcmTimestamp a + timediff a + of_nat (length D2 div ?c) * timediff a"
    and p4: "audio_ok h' a'"
    and p5: "encoded tr2 = chunks ?c D2"
    and p6: "pending h' a' = drop (length D2 - length D2 mod ?c) D2"
    and p7: "\<And>j ts. (j, ts) \<in> set (stamps (Suc k) tr2) \<Longrightarrow>
               Suc k < j \<and> ts = uPcmTimestamp a + timediff a + of_nat (j - Suc (Suc k)) * timediff a"
    by (auto simp: loop_post_def)
  have q3: "uPcmTimestamp a' = uPcmTimestamp a + of_nat (Suc (length D2 div ?c)) * timediff a"
    by (simp add: p3 algebra_simps)
  have q5: "encoded (ev @ tr2) = chunks ?c (b1 @ D2)"
    using b1 by (simp add: encoded_append ev(1) p5 chunks_append_block)
  have "\<And>j. drop (?c + j) (b1 @ D2) = drop j D2"
    using b1 by simp
  then have q6: "pending h' a' = drop (?c + (length D2 - length D2 mod ?c)) (b1 @ D2)"
    by (simp only: p6)
  have q7: "\<forall>(j, ts) \<in> set (stamps k (ev @ tr2)). k < j \<and> ts = uPcmTimestamp a + of_nat (j - Suc k) * timediff a"
  proof -
    have "\<And>j ts. (j, ts) \<in> set (stamps k ev) \<Longrightarrow> k < j \<and> ts = uPcmTimestamp a + of_nat (j - Suc k) * timediff a"
      using ev(2) by auto
    moreover have "\<And>j ts. (j, ts) \<in> set (stamps (Suc k) tr2) \<Longrightarrow> k < j \<and> ts = uPcmTimestamp a + of_nat (j - Suc k) * timediff a"
    proof -
      fix j ts assume "(j, ts) \<in> set (stamps (Suc k) tr2)"
      then have j: "Suc k < j" "ts = uPcmTimestamp a + timediff a + of_nat (j - Suc (Suc k)) * timediff a"
        using p7 by auto
      from j(1) have "j - Suc k = Suc (j - Suc (Suc k))" by simp
      then show "k < j \<and> ts = uPcmTimestamp a + of_nat (j - Suc k) * timediff a"
        using j by (simp add: algebra_simps)
    qed
    ultimately show ?thesis
      by (auto simp: stamps_append ev(1))
  qed
  show ?thesis
    unfolding loop_post_def dm dr
    using p1 p2 q3 p4 q5 q6 q7 by simp
qed

lemma split_block:
  assumes "\<not> length xs < n"
  obtains x zs where "xs = x @ zs" "length x = n"
proof
  show "xs = take n xs @ drop n xs" by simp
  show "length (take n xs) = n" using assms by simp
qed

lemma block_rest:
  fixes n :: nat
  assumes "length x = n" "0 < n"
  shows "length (x @ zs) mod n = length zs mod n"
    and "drop (length (x @ zs) - length zs mod n) (x @ zs) = drop (length zs - length zs mod n) zs"
proof -
  show m: "length (x @ zs) mod n = length zs mod n" using assms by simp
  have "length zs mod n \<le> length zs" by (rule mod_less_eq_dividend)
  then have e: "length (x @ zs) - length zs mod n = n + (length zs - length zs mod n)"
    using assms by simp
  have "\<And>j. drop (n + j) (x @ zs) = drop j zs"
    using assms(1) by simp
  then show "drop (length (x @ zs) - length zs mod n) (x @ zs) = drop (length zs - length zs mod n) zs"
    by (simp only: e)
qed

lemma final_pcm_short: "length D < c \<Longrightarrow> final_pcm c b0 D = overlay D b0"
  by (simp add: final_pcm_def chunks_short)

lemma final_pcm_exit:
  assumes "off \<le> length b" "off < c"
  shows "final_pcm c b (take off b) = b"
  using assms by (simp add: final_pcm_short overlay_def)

lemma final_pcm_small:
  assumes "length D < c"
  shows "final_pcm c (overlay D b0) D = final_pcm c b0 D"
  using assms by (simp add: final_pcm_short) (simp add: overlay_def)

lemma final_pcm_big:
  assumes "length b1 = c" "0 < c"
  shows "final_pcm c b0 (b1 @ D2) = final_pcm c b1 D2"
  unfolding final_pcm_def
  by (simp only: block_rest[OF assms] chunks_append_block[OF assms] last.simps)
     (simp add: )

lemma take_two: "length A = m \<Longrightarrow> length B = n \<Longrightarrow> take (m + n) (A @ B @ C) = A @ B"
  by simp

lemma sendLoop_run:
  assumes fr: "frame_ok w f"
  shows "encoder_ok w a \<Longrightarrow> audio_ok h a \<Longrightarrow> x \<le> len f \<Longrightarrow>
         \<exists>a' h' tr2. sendLoop w f x a (h, tr) = Some (Inr (a', (h', tr @ tr2))) \<and>
            loop_post k a (backlog h a f x) a' h' tr2 \<and>
            pcm h' a' = final_pcm (unat (uPcmBufSize a)) (pcm h a) (backlog h a f x)"
proof (induction "unat (len f) - unat x" arbitrary: x a h tr k rule: less_induct)
  case less
  note enc = less.prems(1) and ok = less.prems(2) and xl = less.prems(3)
  from ok obtain b fb where P: "lookup h (pPcmBuf a) = Some (Bytes b)" "length b = unat (uPcmBufSize a)"
    and F: "lookup h (pFrameBuf a) = Some (Bytes fb)" "length fb = unat (xFrameBufSize a)"
    and ne: "pPcmBuf a \<noteq> pFrameBuf a" and oc: "uPcmOffset a < uPcmBufSize a"
    and sr: "sampleRate (xAudioConf a) * 2 \<noteq> 0"
    by (rule audio_okD)
  have l0: "0 \<le>s len f" and rd: "unat (len f) \<le> length (virAddr f)"
    using fr by (simp_all add: frame_ok_def)
  note lw = loop_words[OF l0 xl]
  let ?cap = "unat (uPcmBufSize a)"
  let ?off = "unat (uPcmOffset a)"
  let ?fb = "frame_bytes f"
  have offcap: "?off < ?cap" using oc by (simp add: word_less_nat_alt)
  have lenfb: "length ?fb = unat (len f)"
    using rd by (simp add: frame_bytes_def)
  have D: "backlog h a f x = take ?off b @ drop (unat x) ?fb"
    by (simp add: backlog_def pending_def pcm_eq[OF P(1)])
  show ?case
  proof (cases "x <s len f")
    case False
    then have e: "unat (len f) \<le> unat x" using lw(3) by simp
    have "sendLoop w f x a (h, tr) = Some (Inr (a, (h, tr @ [])))"
      using False by (simp add: sendLoop_exit)
    moreover have be: "backlog h a f x = pending h a"
      using e by (simp add: backlog_def lenfb)
    then have "loop_post k a (backlog h a f x) a h []"
      using loop_post_exit[OF ok] by simp
    moreover have "pcm h a = final_pcm ?cap (pcm h a) (backlog h a f x)"
      unfolding be pending_def pcm_eq[OF P(1)]
      using offcap P(2) by (simp add: final_pcm_exit)
    ultimately show ?thesis by blast
  next
    case True
    then have lt: "unat x < unat (len f)" using lw(3) by simp
    show ?thesis
    proof (cases "len f - x < uPcmBufSize a - uPcmOffset a")
      case True
      let ?n = "len f - x"
      let ?r = "unat (len f) - unat x"
      have n: "unat ?n = ?r" by (rule lw(4))
      have rs: "?r < ?cap - ?off" using True cmp_nat[OF xl oc] by simp
      note ss = step_small[OF xl oc True]
      let ?b1 = "take ?off b @ take ?r (drop (unat x) ?fb) @ drop (?off + ?r) b"
      let ?h1 = "store h (pPcmBuf a) (Bytes ?b1)"
      let ?a1 = "a\<lparr>uPcmOffset := uPcmOffset a + ?n\<rparr>"
      have fc: "frameCopy w h a f x ?n = Inr ?h1"
        using frameCopy_ok[OF fr xl P(1), of ?n] rs P(2) lt by (simp add: n)
      have step: "sendLoop w f x a (h, tr) = sendLoop w f (len f) ?a1 (?h1, tr)"
        using sendLoop_small[OF \<open>x <s len f\<close> True fc] by simp
      have ok1: "audio_ok ?h1 ?a1"
        apply (rule audio_okI[where b = ?b1 and fb = fb])
        using P F ne ss(2) sr rs lt lenfb offcap
        by (simp_all add: lookup_store_same lookup_store_other)
      have "unat (len f) - unat (len f) < unat (len f) - unat x" using lt by simp
      from less.hyps[OF this, of ?a1 ?h1 tr k] enc ok1
      obtain a' h' tr2 where r: "sendLoop w f (len f) ?a1 (?h1, tr) = Some (Inr (a', (h', tr @ tr2)))"
        "loop_post k ?a1 (backlog ?h1 ?a1 f (len f)) a' h' tr2"
        "pcm h' a' = final_pcm ?cap (pcm ?h1 ?a1) (backlog ?h1 ?a1 f (len f))"
        by auto
      have P1: "lookup ?h1 (pPcmBuf ?a1) = Some (Bytes ?b1)"
        using P by (simp add: lookup_store_same)
      then have "backlog ?h1 ?a1 f (len f) = take (?off + ?r) ?b1"
        by (simp add: backlog_def pending_def pcm_eq lenfb ss(1) n)
      also have "\<dots> = take ?off b @ take ?r (drop (unat x) ?fb)"
        by (rule take_two) (use offcap P(2) lenfb lt in simp_all)
      also have "\<dots> = backlog h a f x"
        using lenfb by (simp add: D)
      finally have bk: "backlog ?h1 ?a1 f (len f) = backlog h a f x" .
      have lD: "length (backlog h a f x) = ?off + ?r"
        using offcap P(2) lenfb by (simp add: D)
      have ov: "?b1 = overlay (backlog h a f x) b"
        unfolding overlay_def lD using lenfb by (simp add: D)
      have "pcm h' a' = final_pcm ?cap ?b1 (backlog h a f x)"
        using r(3) unfolding bk pcm_eq[OF P1] .
      also have "\<dots> = final_pcm ?cap (overlay (backlog h a f x) b) (backlog h a f x)"
        by (simp only: ov)
      also have "\<dots> = final_pcm ?cap (pcm h a) (backlog h a f x)"
        unfolding pcm_eq[OF P(1)] by (rule final_pcm_small) (use rs lD in simp)
      finally have "pcm h' a' = final_pcm ?cap (pcm h a) (backlog h a f x)" .
      moreover have "loop_post k a (backlog h a f x) a' h' tr2"
        using r(2) loop_post_small by (simp add: bk)
      ultimately show ?thesis using step r(1) by auto
    next
      case False
      let ?n = "uPcmBufSize a - uPcmOffset a"
      let ?m = "?cap - ?off"
      note sb = step_big[OF xl oc False]
      have m0: "0 < ?m" using offcap by simp
      let ?b1 = "take ?off b @ take ?m (drop (unat x) ?fb)"
      let ?h1 = "store h (pPcmBuf a) (Bytes ?b1)"
      let ?a0 = "a\<lparr>uPcmOffset := 0\<rparr>"
      let ?a2 = "a\<lparr>uPcmOffset := 0, uPcmTimestamp := uPcmTimestamp a + timediff a\<rparr>"
      let ?x2 = "x + ?n"
      have lb1: "length ?b1 = ?cap"
        using offcap P(2) lenfb sb(4) by simp
      have "frameCopy w h a f x ?n =
              Inr (store h (pPcmBuf a) (Bytes (take ?off b @ take ?m (drop (unat x) ?fb) @ drop (?off + ?m) b)))"
        using frameCopy_ok[OF fr xl P(1), of ?n] sb(4) P(2) lt offcap by (simp add: sb(3))
      then have fc: "frameCopy w h a f x ?n = Inr ?h1"
        using offcap P(2) by simp
      have "\<exists>h2 ev fb'. encodeBlock w ?a0 (?h1, tr) = Inr (h2, tr @ ev) \<and>
              lookup h2 (pPcmBuf ?a0) = Some (Bytes ?b1) \<and>
              lookup h2 (pFrameBuf ?a0) = Some (Bytes fb') \<and> length fb' = length fb \<and>
              encoded ev = [?b1] \<and> set (stamps k ev) \<subseteq> {(Suc k, uPcmTimestamp ?a0)}"
        apply (rule encodeBlock_ok)
        using enc P F ne lb1 by (simp_all add: lookup_store_same lookup_store_other)
      then obtain h2 ev fb' where eb: "encodeBlock w ?a0 (?h1, tr) = Inr (h2, tr @ ev)"
        and P2: "lookup h2 (pPcmBuf a) = Some (Bytes ?b1)"
        and F2: "lookup h2 (pFrameBuf a) = Some (Bytes fb')" "length fb' = length fb"
        and ev: "encoded ev = [?b1]" "set (stamps k ev) \<subseteq> {(Suc k, uPcmTimestamp a)}"
        by auto
      have step: "sendLoop w f x a (h, tr) = sendLoop w f ?x2 ?a2 (h2, tr @ ev)"
        by (rule sendLoop_big[OF \<open>x <s len f\<close> False fc eb sr])
      have c0: "0 < uPcmBufSize a" using oc by unat_arith
      have ok2: "audio_ok h2 ?a2"
        apply (rule audio_okI[where b = ?b1 and fb = fb'])
        using P2 F2 F(2) ne sr lb1 c0 by simp_all
      have "unat (len f) - unat ?x2 < unat (len f) - unat x"
        using sb(1) m0 lt by simp
      from less.hyps[OF this, of ?a2 h2 "tr @ ev" "Suc k"] enc ok2 sb(2)
      obtain a' h' tr2 where r: "sendLoop w f ?x2 ?a2 (h2, tr @ ev) = Some (Inr (a', (h', (tr @ ev) @ tr2)))"
        "loop_post (Suc k) ?a2 (backlog h2 ?a2 f ?x2) a' h' tr2"
        "pcm h' a' = final_pcm ?cap (pcm h2 ?a2) (backlog h2 ?a2 f ?x2)"
        by auto
      have D2: "backlog h2 ?a2 f ?x2 = drop ?m (drop (unat x) ?fb)"
        by (simp add: backlog_def pending_def sb(1) add.commute)
      have bk: "?b1 @ backlog h2 ?a2 f ?x2 = backlog h a f x"
        unfolding D D2 by (simp only: append_assoc append_take_drop_id)
      have "loop_post k a (?b1 @ backlog h2 ?a2 f ?x2) a' h' (ev @ tr2)"
        using r(2) lb1 m0 ev by (intro loop_post_big) simp_all
      moreover have "pcm h2 ?a2 = ?b1"
        using P2 by (simp add: pcm_def bytes_at_def)
      then have "pcm h' a' = final_pcm ?cap ?b1 (backlog h2 ?a2 f ?x2)"
        using r(3) by simp
      then have "pcm h' a' = final_pcm ?cap (pcm h a) (?b1 @ backlog h2 ?a2 f ?x2)"
        using final_pcm_big[OF lb1, of "pcm h a" "backlog h2 ?a2 f ?x2"] offcap by simp
      ultimately show ?thesis using step r(1) unfolding bk by auto
    qed
  qed
qed

lemma chunks_concat:
  "0 < n \<Longrightarrow> concat (chunks n xs) @ drop (length xs - length xs mod n) xs = xs"
proof (induction "length xs" arbitrary: xs rule: less_induct)
  case less
  show ?case
  proof (cases "length xs < n")
    case True
    then show ?thesis by (simp add: chunks_short)
  next
    case False
    then obtain x zs where xs: "xs = x @ zs" and lx: "length x = n" by (rule split_block)
    have l: "length zs < length xs" using lx less.prems by (simp add: xs)
    have "concat (chunks n (x @ zs)) @ drop (length (x @ zs) - length (x @ zs) mod n) (x @ zs)
          = x @ concat (chunks n zs) @ drop (length zs - length zs mod n) zs"
      by (simp only: block_rest[OF lx less.prems] chunks_append_block[OF lx less.prems] concat.simps append_assoc)
    also have "\<dots> = x @ zs"
      by (simp only: less.hyps[OF l less.prems])
    finally show ?thesis by (simp only: xs)
  qed
qed

lemma length_chunks: "length (chunks n xs) = length xs div n"
  by (simp add: chunks_def)

lemma chunks_lengths: "0 < n \<Longrightarrow> c \<in> set (chunks n xs) \<Longrightarrow> length c = n"
proof -
  assume n: "0 < n" and "c \<in> set (chunks n xs)"
  then obtain i where i: "i < length xs div n" "c = take n (drop (i * n) xs)"
    by (auto simp: chunks_def)
  have "i * n + n \<le> (length xs div n) * n" using i(1)
    by (metis Suc_leI mult_Suc mult_le_mono1 add.commute)
  also have "\<dots> \<le> length xs" by simp
  finally show ?thesis using i(2) by simp
qed

lemma chunks_split:
  assumes "0 < n"
  shows "chunks n (xs @ ys) = chunks n xs @ chunks n (drop (length xs - length xs mod n) xs @ ys)"
proof (induction "length xs" arbitrary: xs rule: less_induct)
  case less
  show ?case
  proof (cases "length xs < n")
    case True
    then show ?thesis by (simp add: chunks_short)
  next
    case False
    then obtain x zs where xs: "xs = x @ zs" and lx: "length x = n" by (rule split_block)
    have l: "length zs < length xs" using lx assms by (simp add: xs)
    have "chunks n ((x @ zs) @ ys) = x # chunks n (zs @ ys)"
      by (simp only: append_assoc chunks_append_block[OF lx assms])
    also have "\<dots> = x # chunks n zs @ chunks n (drop (length zs - length zs mod n) zs @ ys)"
      by (simp only: less.hyps[OF l])
    also have "\<dots> = chunks n (x @ zs) @
        chunks n (drop (length (x @ zs) - length (x @ zs) mod n) (x @ zs) @ ys)"
      by (simp only: block_rest[OF lx assms] chunks_append_block[OF lx assms] append_Cons)
    finally show ?thesis by (simp only: xs)
  qed
qed

lemma rest_split:
  fixes xs ys :: "'a list"
  assumes "0 < n"
  defines "R \<equiv> drop (length xs - length xs mod n) xs"
  shows "drop (length (xs @ ys) - length (xs @ ys) mod n) (xs @ ys)
         = drop (length (R @ ys) - length (R @ ys) mod n) (R @ ys)"
    (is "?X = ?Y")
proof -
  let ?A = "concat (chunks n xs)" and ?B = "concat (chunks n (R @ ys))"
  have "chunks n (xs @ ys) = chunks n xs @ chunks n (R @ ys)"
    unfolding R_def by (rule chunks_split[OF assms(1)])
  then have e1: "(?A @ ?B) @ ?X = xs @ ys"
    using chunks_concat[OF assms(1), of "xs @ ys"] by (simp only: concat_append)
  have e2: "?A @ R = xs"
    unfolding R_def by (rule chunks_concat[OF assms(1)])
  have e3: "?B @ ?Y = R @ ys"
    by (rule chunks_concat[OF assms(1)])
  have "?A @ (?B @ ?X) = (?A @ R) @ ys"
    using e1 by (simp only: e2 append_assoc)
  also have "\<dots> = ?A @ (?B @ ?Y)"
    by (simp only: append_assoc e3)
  finally show ?thesis by (simp only: same_append_eq)
qed

lemma rest_length:
  fixes n :: nat
  shows "length (drop (length xs - length xs mod n) xs) = length xs mod n"
  using mod_less_eq_dividend[of "length xs" n] by simp

lemma rest_mod:
  fixes n :: nat
  shows "length (drop (length xs - length xs mod n) xs @ ys) mod n = length (xs @ ys) mod n"
  by (simp only: length_append rest_length mod_add_left_eq)

lemma seed_simps [simp]:
  "uPcmOffset (seedTimestamp now a) = uPcmOffset a"
  "uPcmBufSize (seedTimestamp now a) = uPcmBufSize a"
  "pPcmBuf (seedTimestamp now a) = pPcmBuf a"
  "timediff (seedTimestamp now a) = timediff a"
  "encoder_ok w (seedTimestamp now a) = encoder_ok w a"
  "audio_ok h (seedTimestamp now a) = audio_ok h a"
  "pending h (seedTimestamp now a) = pending h a"
  "(seedTimestamp now a)\<lparr>uPcmOffset := 0, uPcmTimestamp := 0\<rparr> = a\<lparr>uPcmOffset := 0, uPcmTimestamp := 0\<rparr>"
  by (simp_all add: seedTimestamp_def audio_ok_def pending_def pcm_def)

lemma sendAudioFrame_run:
  assumes "frame_ok w f" "encoder_ok w a" "audio_ok h a"
  shows "\<exists>a' h' tr2. sendAudioFrame w now (Some a) (Some f) (h, tr) = Some (Inr (0, Some a', (h', tr @ tr2))) \<and>
           loop_post k (seedTimestamp now a) (pending h a @ frame_bytes f) a' h' tr2 \<and>
           pcm h' a' = final_pcm (unat (uPcmBufSize a)) (pcm h a) (pending h a @ frame_bytes f)"
proof -
  have "\<exists>a' h' tr2. sendLoop w f 0 (seedTimestamp now a) (h, tr) = Some (Inr (a', (h', tr @ tr2))) \<and>
            loop_post k (seedTimestamp now a) (backlog h (seedTimestamp now a) f 0) a' h' tr2 \<and>
            pcm h' a' = final_pcm (unat (uPcmBufSize (seedTimestamp now a))) (pcm h (seedTimestamp now a))
                          (backlog h (seedTimestamp now a) f 0)"
    using assms by (intro sendLoop_run) simp_all
  moreover have "pcm h (seedTimestamp now a) = pcm h a"
    by (simp add: pcm_def)
  ultimately show ?thesis
    by (auto simp: sendAudioFrame_def backlog_def)
qed

lemma sendFrames_run:
  assumes "\<forall>nf \<in> set fs. frame_ok w (snd nf)"
  shows "encoder_ok w a \<Longrightarrow> audio_ok h a \<Longrightarrow>
    \<exists>a' h' tr2. sendFrames w fs a (h, tr) = Some (Inr (a', (h', tr @ tr2))) \<and>
       a'\<lparr>uPcmOffset := 0, uPcmTimestamp := 0\<rparr> = a\<lparr>uPcmOffset := 0, uPcmTimestamp := 0\<rparr> \<and>
       audio_ok h' a' \<and>
       encoded tr2 = chunks (unat (uPcmBufSize a)) (pending h a @ frames_bytes fs) \<and>
       pending h' a' = drop (length (pending h a @ frames_bytes fs)
                               - length (pending h a @ frames_bytes fs) mod unat (uPcmBufSize a))
                            (pending h a @ frames_bytes fs) \<and>
       unat (uPcmOffset a') = length (pending h a @ frames_bytes fs) mod unat (uPcmBufSize a)"
  using assms
proof (induction fs arbitrary: a h tr)
  case Nil
  from loop_post_exit[OF Nil(2), of 0]
  show ?case by (simp add: frames_bytes_def loop_post_def)
next
  case (Cons nf fs)
  let ?c = "unat (uPcmBufSize a)"
  let ?D1 = "pending h a @ frame_bytes (snd nf)"
  have c0: "0 < ?c" using Cons.prems(2) by (auto simp: audio_ok_def word_less_nat_alt)
  obtain a1 h1 tr1 where s1: "sendAudioFrame w (fst nf) (Some a) (Some (snd nf)) (h, tr) = Some (Inr (0, Some a1, (h1, tr @ tr1)))"
    and p1: "loop_post 0 (seedTimestamp (fst nf) a) ?D1 a1 h1 tr1"
    using sendAudioFrame_run[of w "snd nf" a h "fst nf" tr 0] Cons.prems by auto
  from p1 have q: "a1\<lparr>uPcmOffset := 0, uPcmTimestamp := 0\<rparr> = a\<lparr>uPcmOffset := 0, uPcmTimestamp := 0\<rparr>"
    "audio_ok h1 a1" "encoded tr1 = chunks ?c ?D1" "pending h1 a1 = drop (length ?D1 - length ?D1 mod ?c) ?D1"
    by (simp_all add: loop_post_def)
  have cfg: "uPcmBufSize a1 = uPcmBufSize a" "xAacEncHandle a1 = xAacEncHandle a" "xFrameBufSize a1 = xFrameBufSize a"
    using arg_cong[OF q(1), of uPcmBufSize] arg_cong[OF q(1), of xAacEncHandle] arg_cong[OF q(1), of xFrameBufSize]
    by simp_all
  have e1: "encoder_ok w a1" using Cons.prems(1) by (simp add: encoder_ok_def cfg)
  obtain a' h' tr2 where s2: "sendFrames w fs a1 (h1, tr @ tr1) = Some (Inr (a', (h', (tr @ tr1) @ tr2)))"
    and r: "a'\<lparr>uPcmOffset := 0, uPcmTimestamp := 0\<rparr> = a1\<lparr>uPcmOffset := 0, uPcmTimestamp := 0\<rparr>"
       "audio_ok h' a'"
       "encoded tr2 = chunks ?c (pending h1 a1 @ frames_bytes fs)"
       "pending h' a' = drop (length (pending h1 a1 @ frames_bytes fs)
                               - length (pending h1 a1 @ frames_bytes fs) mod ?c)
                            (pending h1 a1 @ frames_bytes fs)"
       "unat (uPcmOffset a') = length (pending h1 a1 @ frames_bytes fs) mod ?c"
    using Cons.IH[OF e1 q(2), of "tr @ tr1"] Cons.prems(3) by (auto simp: cfg)
  have fb: "pending h a @ frames_bytes (nf # fs) = ?D1 @ frames_bytes fs"
    by (simp add: frames_bytes_def)
  have "sendFrames w (nf # fs) a (h, tr) = Some (Inr (a', (h', tr @ (tr1 @ tr2))))"
    using s1 s2 by simp
  moreover have "encoded (tr1 @ tr2) = chunks ?c (?D1 @ frames_bytes fs)"
    unfolding encoded_append q(3) r(3) q(4) by (rule chunks_split[OF c0, symmetric])
  moreover have "pending h' a' = drop (length (?D1 @ frames_bytes fs) - length (?D1 @ frames_bytes fs) mod ?c) (?D1 @ frames_bytes fs)"
    unfolding r(4) q(4) by (rule rest_split[OF c0, symmetric])
  moreover have "unat (uPcmOffset a') = length (?D1 @ frames_bytes fs) mod ?c"
    unfolding r(5) q(4) by (rule rest_mod)
  ultimately show ?case
    using r(1,2) q(1) unfolding fb by (intro exI[of _ a'] exI[of _ h'] exI[of _ "tr1 @ tr2"]) simp
qed

section \<open>Claims about the accumulator\<close>

lemma world0_ok: "encoder_ok world0 audio0" "audio_ok heap0 audio0"
  "\<forall>nf \<in> set frames0. frame_ok world0 (snd nf)"
  by (simp_all add: encoder_ok_def audio_ok_def frame_ok_def world0_def audio0_def heap0_def
        frames0_def conf0_def bytes_at_def lookup_def sle0_iff)

text \<open>
  C1.  Successive calls of \<open>sendAudioFrame\<close> on frames of any lengths return, and the
  blocks passed to the encoder, concatenated in call order and followed by the bytes
  below the fill offset of the PCM buffer, are the bytes that were below the fill
  offset before the first call followed by the bytes of all frames.  With an empty
  buffer at the start that is the concatenation of the input, whatever the partition
  into frames.
\<close>

theorem C1_no_loss_no_duplication:
  assumes "\<forall>nf \<in> set fs. frame_ok w (snd nf)" and "encoder_ok w a" and "audio_ok h a"
  shows "\<exists>a' h' tr2. sendFrames w fs a (h, tr) = Some (Inr (a', (h', tr @ tr2))) \<and>
           concat (encoded tr2) @ pending h' a' = pending h a @ frames_bytes fs \<and>
           (uPcmOffset a = 0 \<longrightarrow> concat (encoded tr2) @ pending h' a' = frames_bytes fs)"
proof -
  let ?c = "unat (uPcmBufSize a)" and ?D = "pending h a @ frames_bytes fs"
  have c0: "0 < ?c" using assms(3) by (auto simp: audio_ok_def word_less_nat_alt)
  obtain a' h' tr2 where r: "sendFrames w fs a (h, tr) = Some (Inr (a', (h', tr @ tr2)))"
    "encoded tr2 = chunks ?c ?D" "pending h' a' = drop (length ?D - length ?D mod ?c) ?D"
    using sendFrames_run[OF assms, of tr] by blast
  have "concat (encoded tr2) @ pending h' a' = ?D"
    unfolding r(2,3) by (rule chunks_concat[OF c0])
  moreover have "uPcmOffset a = 0 \<Longrightarrow> pending h a = []"
    by (simp add: pending_def)
  ultimately show ?thesis using r(1) by auto
qed

theorem C1_witness:
  "list_all (\<lambda>nf. frame_ok world0 (snd nf)) frames0 \<and> encoder_ok world0 audio0 \<and>
   audio_ok heap0 audio0 \<and> uPcmOffset audio0 = 0 \<and>
   (\<exists>a' h' tr2. sendFrames world0 frames0 audio0 (heap0, []) = Some (Inr (a', (h', tr2))) \<and>
      concat (encoded tr2) @ pending h' a' = replicate 40 1 @ replicate 100 2)"
proof -
  have f: "frames_bytes frames0 = replicate 40 1 @ replicate 100 2"
    by (simp add: frames_bytes_def frames0_def frame_bytes_def)
  have o: "uPcmOffset audio0 = 0" by (simp add: audio0_def)
  show ?thesis
    using C1_no_loss_no_duplication[OF world0_ok(3,1,2), of "[]"] world0_ok o
    unfolding f by (auto simp: list_all_iff)
qed

lemma length_frame_bytes: "frame_ok w f \<Longrightarrow> length (frame_bytes f) = unat (len f)"
  by (simp add: frame_ok_def frame_bytes_def)

lemma length_frames_bytes:
  "\<forall>nf \<in> set fs. frame_ok w (snd nf) \<Longrightarrow> length (frames_bytes fs) = frames_len fs"
  by (induction fs) (auto simp: frames_bytes_def frames_len_def length_frame_bytes)

text \<open>
  C2.  From an empty PCM buffer, frames whose lengths total \<open>n\<close> bytes lead to exactly
  \<open>n div capacity\<close> encoder calls, each on one capacity-sized block, the blocks being
  the successive capacity-sized pieces of the concatenated input, and leave the fill
  offset at \<open>n mod capacity\<close>.  So a total of \<open>k\<close> times the capacity gives \<open>k\<close> calls and
  offset 0; one frame of two and a half times the capacity gives two calls and an offset
  of half the capacity; and with capacity 1280 the lengths 700, 900, 2500 give three
  calls, on the first three 1280-byte pieces of the input, and offset 260.
\<close>

theorem C2_block_completeness:
  assumes "\<forall>nf \<in> set fs. frame_ok w (snd nf)" and "encoder_ok w a" and "audio_ok h a"
    and "uPcmOffset a = 0"
  shows "\<exists>a' h' tr2. sendFrames w fs a (h, tr) = Some (Inr (a', (h', tr @ tr2))) \<and>
           encoded tr2 = chunks (unat (uPcmBufSize a)) (frames_bytes fs) \<and>
           list_all (\<lambda>b. length b = unat (uPcmBufSize a)) (encoded tr2) \<and>
           length (encoded tr2) = frames_len fs div unat (uPcmBufSize a) \<and>
           unat (uPcmOffset a') = frames_len fs mod unat (uPcmBufSize a) \<and>
           (\<forall>k. frames_len fs = k * unat (uPcmBufSize a) \<longrightarrow>
                  length (encoded tr2) = k \<and> uPcmOffset a' = 0) \<and>
           (\<forall>c. length fs = 1 \<and> unat (uPcmBufSize a) = 2 * c \<and> frames_len fs = 5 * c \<longrightarrow>
                  length (encoded tr2) = 2 \<and> unat (uPcmOffset a') = c) \<and>
           (uPcmBufSize a = 1280 \<and> map (\<lambda>nf. unat (len (snd nf))) fs = [700, 900, 2500] \<longrightarrow>
                  encoded tr2 = [take 1280 (frames_bytes fs),
                                 take 1280 (drop 1280 (frames_bytes fs)),
                                 take 1280 (drop 2560 (frames_bytes fs))] \<and>
                  uPcmOffset a' = 260)"
proof -
  let ?c = "unat (uPcmBufSize a)" and ?B = "frames_bytes fs"
  have c0: "0 < ?c" using assms(3) by (auto simp: audio_ok_def word_less_nat_alt)
  have p0: "pending h a = []" using assms(4) by (simp add: pending_def)
  have lB: "length ?B = frames_len fs" using assms(1) by (rule length_frames_bytes)
  obtain a' h' tr2 where r: "sendFrames w fs a (h, tr) = Some (Inr (a', (h', tr @ tr2)))"
    "encoded tr2 = chunks ?c ?B" "unat (uPcmOffset a') = length ?B mod ?c"
    using sendFrames_run[OF assms(1-3), of tr] unfolding p0 by auto
  have g1: "list_all (\<lambda>b. length b = ?c) (encoded tr2)"
    unfolding r(2) list_all_iff using chunks_lengths[OF c0] by blast
  have g2: "length (encoded tr2) = frames_len fs div ?c"
    by (simp add: r(2) length_chunks lB)
  have g3: "unat (uPcmOffset a') = frames_len fs mod ?c"
    by (simp add: r(3) lB)
  have g4: "\<forall>k. frames_len fs = k * ?c \<longrightarrow> length (encoded tr2) = k \<and> uPcmOffset a' = 0"
    using c0 g2 g3 by (auto simp: unat_eq_0)
  have g5: "\<forall>c. length fs = 1 \<and> ?c = 2 * c \<and> frames_len fs = 5 * c \<longrightarrow>
                  length (encoded tr2) = 2 \<and> unat (uPcmOffset a') = c"
  proof (intro allI impI, elim conjE)
    fix c assume c: "?c = 2 * c" "frames_len fs = 5 * c"
    then have "0 < c" using c0 by simp
    have "5 * c = 2 * (2 * c) + c" by simp
    then have "(5 * c) div (2 * c) = 2" "(5 * c) mod (2 * c) = c"
      using \<open>0 < c\<close> by (metis div_mult_self3 mod_mult_self3 div_less mod_less add.commute
          add_0 mult_2 less_add_same_cancel1 not_gr_zero mult_is_0 zero_neq_numeral)+
    then show "length (encoded tr2) = 2 \<and> unat (uPcmOffset a') = c"
      by (simp add: g2 g3 c)
  qed
  have g6: "uPcmBufSize a = 1280 \<and> map (\<lambda>nf. unat (len (snd nf))) fs = [700, 900, 2500] \<longrightarrow>
                  encoded tr2 = [take 1280 ?B, take 1280 (drop 1280 ?B), take 1280 (drop 2560 ?B)] \<and>
                  uPcmOffset a' = 260"
  proof (intro impI, elim conjE)
    assume c: "uPcmBufSize a = 1280" and m: "map (\<lambda>nf. unat (len (snd nf))) fs = [700, 900, 2500]"
    have n: "frames_len fs = 4100" by (simp add: frames_len_def m)
    have "unat (uPcmOffset a') = unat (260 :: 32 word)"
      by (simp add: g3 n c)
    then have "uPcmOffset a' = 260" by (simp only: word_unat_eq_iff)
    moreover have "[0..<3] = [0, 1, 2]" by (simp add: upt_rec)
    then have "chunks 1280 ?B = [take 1280 ?B, take 1280 (drop 1280 ?B), take 1280 (drop 2560 ?B)]"
      by (simp add: chunks_def lB n)
    ultimately show "encoded tr2 = [take 1280 ?B, take 1280 (drop 1280 ?B), take 1280 (drop 2560 ?B)] \<and>
                  uPcmOffset a' = 260"
      by (simp add: r(2) c)
  qed
  show ?thesis
    using r(1,2) g1 g2 g3 g4 g5 g6 by blast
qed

lemma scenario_ok:
  "\<forall>nf \<in> set frames_2blocks. frame_ok world0 (snd nf)"
  "\<forall>nf \<in> set frames_spanning. frame_ok world0 (snd nf)"
  "\<forall>nf \<in> set frames1280. frame_ok world0 (snd nf)"
  "encoder_ok world0 audio1280" "audio_ok heap1280 audio1280"
  by (simp_all add: encoder_ok_def audio_ok_def frame_ok_def world0_def audio0_def heap0_def
        frames_2blocks_def frames_spanning_def frames1280_def audio1280_def heap1280_def
        conf0_def bytes_at_def lookup_def store_def sle0_iff)

theorem C2_witness:
  "(\<exists>a' h' tr2. sendFrames world0 frames_2blocks audio0 (heap0, []) = Some (Inr (a', (h', tr2))) \<and>
       frames_len frames_2blocks = 2 * unat (uPcmBufSize audio0) \<and>
       length (encoded tr2) = 2 \<and> uPcmOffset a' = 0) \<and>
   (\<exists>a' h' tr2. sendFrames world0 frames_spanning audio0 (heap0, []) = Some (Inr (a', (h', tr2))) \<and>
       length frames_spanning = 1 \<and> unat (uPcmBufSize audio0) = 2 * 32 \<and>
       frames_len frames_spanning = 5 * 32 \<and>
       length (encoded tr2) = 2 \<and> unat (uPcmOffset a') = 32) \<and>
   (\<exists>a' h' tr2. sendFrames world0 frames1280 audio1280 (heap1280, []) = Some (Inr (a', (h', tr2))) \<and>
       uPcmBufSize audio1280 = 1280 \<and>
       map (\<lambda>nf. unat (len (snd nf))) frames1280 = [700, 900, 2500] \<and>
       length (encoded tr2) = 3 \<and> uPcmOffset a' = 260)"
proof -
  have o: "uPcmOffset audio0 = 0" "uPcmOffset audio1280 = 0"
    by (simp_all add: audio0_def audio1280_def)
  have a: "frames_len frames_2blocks = 2 * unat (uPcmBufSize audio0)"
    by (simp add: frames_len_def frames_2blocks_def audio0_def)
  have b: "length frames_spanning = 1 \<and> unat (uPcmBufSize audio0) = 2 * 32 \<and>
       frames_len frames_spanning = 5 * 32"
    by (simp add: frames_len_def frames_spanning_def audio0_def)
  have c: "uPcmBufSize audio1280 = 1280 \<and>
       map (\<lambda>nf. unat (len (snd nf))) frames1280 = [700, 900, 2500]"
    by (simp add: frames1280_def audio1280_def)
  have "\<exists>a' h' tr2. sendFrames world0 frames_2blocks audio0 (heap0, []) = Some (Inr (a', (h', tr2))) \<and>
       frames_len frames_2blocks = 2 * unat (uPcmBufSize audio0) \<and>
       length (encoded tr2) = 2 \<and> uPcmOffset a' = 0"
    using C2_block_completeness[OF scenario_ok(1) world0_ok(1,2) o(1), of "[]"] a by auto
  moreover have "\<exists>a' h' tr2. sendFrames world0 frames_spanning audio0 (heap0, []) = Some (Inr (a', (h', tr2))) \<and>
       length frames_spanning = 1 \<and> unat (uPcmBufSize audio0) = 2 * 32 \<and>
       frames_len frames_spanning = 5 * 32 \<and>
       length (encoded tr2) = 2 \<and> unat (uPcmOffset a') = 32"
    using C2_block_completeness[OF scenario_ok(2) world0_ok(1,2) o(1), of "[]"] b by auto
  moreover have "\<exists>a' h' tr2. sendFrames world0 frames1280 audio1280 (heap1280, []) = Some (Inr (a', (h', tr2))) \<and>
       uPcmBufSize audio1280 = 1280 \<and>
       map (\<lambda>nf. unat (len (snd nf))) frames1280 = [700, 900, 2500] \<and>
       length (encoded tr2) = 3 \<and> uPcmOffset a' = 260"
  proof -
    from C2_block_completeness[OF scenario_ok(3,4,5) o(2), of "[]"]
    obtain a' h' tr2 where s: "sendFrames world0 frames1280 audio1280 (heap1280, []) = Some (Inr (a', (h', tr2)))"
      and i: "uPcmBufSize audio1280 = 1280 \<and>
              map (\<lambda>nf. unat (len (snd nf))) frames1280 = [700, 900, 2500] \<longrightarrow>
                encoded tr2 = [take 1280 (frames_bytes frames1280),
                               take 1280 (drop 1280 (frames_bytes frames1280)),
                               take 1280 (drop 2560 (frames_bytes frames1280))] \<and>
                uPcmOffset a' = 260"
      by auto
    from i c have "length (encoded tr2) = 3" "uPcmOffset a' = 260" by simp_all
    with s c show ?thesis
      by (intro exI[of _ a'] exI[of _ h'] exI[of _ tr2]) simp
  qed
  ultimately show ?thesis by blast
qed

section \<open>Claims about the timestamps\<close>

lemma stamps_le: "(j, ts) \<in> set (stamps k tr) \<Longrightarrow> j \<le> k + length (encoded tr)"
  by (induction k tr rule: stamps.induct) auto

lemma length_pending: "audio_ok h a \<Longrightarrow> length (pending h a) = unat (uPcmOffset a)"
  by (auto simp: audio_ok_def pending_def pcm_def word_less_nat_alt)

lemma same_config:
  assumes "a'\<lparr>uPcmOffset := 0, uPcmTimestamp := 0\<rparr> = a\<lparr>uPcmOffset := 0, uPcmTimestamp := 0\<rparr>"
  shows "uPcmBufSize a' = uPcmBufSize a" "timediff a' = timediff a" "encoder_ok w a' = encoder_ok w a"
proof -
  show c: "uPcmBufSize a' = uPcmBufSize a" using arg_cong[OF assms, of uPcmBufSize] by simp
  have x: "xAudioConf a' = xAudioConf a" "xAacEncHandle a' = xAacEncHandle a" "xFrameBufSize a' = xFrameBufSize a"
    using arg_cong[OF assms, of xAudioConf] arg_cong[OF assms, of xAacEncHandle]
      arg_cong[OF assms, of xFrameBufSize] by simp_all
  show "timediff a' = timediff a" by (simp add: timediff_def c x)
  show "encoder_ok w a' = encoder_ok w a" by (simp add: encoder_ok_def c x)
qed

lemma sendFrames_stamps:
  assumes "\<forall>nf \<in> set fs. frame_ok w (snd nf)"
  shows "encoder_ok w a \<Longrightarrow> audio_ok h a \<Longrightarrow>
    \<forall>e \<in> set (entry_offsets (unat (uPcmBufSize a)) (unat (uPcmOffset a))
                  (map (\<lambda>nf. unat (len (snd nf))) fs)). e \<noteq> 0 \<Longrightarrow>
    \<exists>a' h' tr2. sendFrames w fs a (h, tr) = Some (Inr (a', (h', tr @ tr2))) \<and>
       uPcmTimestamp a' = uPcmTimestamp a + of_nat (length (encoded tr2)) * timediff a \<and>
       (\<forall>(j, ts) \<in> set (stamps k tr2). k < j \<and> ts = uPcmTimestamp a + of_nat (j - Suc k) * timediff a)"
  using assms
proof (induction fs arbitrary: a h tr k)
  case Nil
  show ?case by simp
next
  case (Cons nf fs)
  let ?c = "unat (uPcmBufSize a)"
  let ?D1 = "pending h a @ frame_bytes (snd nf)"
  have fo: "frame_ok w (snd nf)" using Cons.prems(4) by simp
  have o0: "uPcmOffset a \<noteq> 0" using Cons.prems(3) by (auto simp: unat_eq_0)
  then have sd: "seedTimestamp (fst nf) a = a" by (simp add: seedTimestamp_def)
  obtain a1 h1 tr1 where s1: "sendAudioFrame w (fst nf) (Some a) (Some (snd nf)) (h, tr) = Some (Inr (0, Some a1, (h1, tr @ tr1)))"
    and p1: "loop_post k a ?D1 a1 h1 tr1"
    using sendAudioFrame_run[OF fo Cons.prems(1,2), of "fst nf" tr k] unfolding sd by auto
  let ?n1 = "length (encoded tr1)"
  from p1 have q: "a1\<lparr>uPcmOffset := 0, uPcmTimestamp := 0\<rparr> = a\<lparr>uPcmOffset := 0, uPcmTimestamp := 0\<rparr>"
    "audio_ok h1 a1" "encoded tr1 = chunks ?c ?D1" "unat (uPcmOffset a1) = length ?D1 mod ?c"
    "uPcmTimestamp a1 = uPcmTimestamp a + of_nat (length ?D1 div ?c) * timediff a"
    and q7: "\<And>j ts. (j, ts) \<in> set (stamps k tr1) \<Longrightarrow> k < j \<and> ts = uPcmTimestamp a + of_nat (j - Suc k) * timediff a"
    by (auto simp: loop_post_def)
  note cfg = same_config[OF q(1)]
  have lD: "length ?D1 = unat (uPcmOffset a) + unat (len (snd nf))"
    using length_pending[OF Cons.prems(2)] length_frame_bytes[OF fo] by simp
  have o1: "unat (uPcmOffset a1) = (unat (uPcmOffset a) + unat (len (snd nf))) mod ?c"
    by (simp only: q(4) lD)
  have n1: "?n1 = length ?D1 div ?c" by (simp add: q(3) length_chunks)
  have t1: "uPcmTimestamp a1 = uPcmTimestamp a + of_nat ?n1 * timediff a"
    by (simp add: q(5) n1)
  have e1: "encoder_ok w a1" using Cons.prems(1) by (simp add: cfg)
  have eo: "\<forall>e \<in> set (entry_offsets (unat (uPcmBufSize a1)) (unat (uPcmOffset a1))
                  (map (\<lambda>nf. unat (len (snd nf))) fs)). e \<noteq> 0"
    using Cons.prems(3) by (simp add: cfg o1)
  have fs: "\<forall>nf \<in> set fs. frame_ok w (snd nf)" using Cons.prems(4) by simp
  obtain a' h' tr2 where s2: "sendFrames w fs a1 (h1, tr @ tr1) = Some (Inr (a', (h', (tr @ tr1) @ tr2)))"
    and r: "uPcmTimestamp a' = uPcmTimestamp a1 + of_nat (length (encoded tr2)) * timediff a1"
    and r7': "\<forall>(j, ts) \<in> set (stamps (k + ?n1) tr2).
               k + ?n1 < j \<and> ts = uPcmTimestamp a1 + of_nat (j - Suc (k + ?n1)) * timediff a1"
    using Cons.IH[OF e1 q(2) eo fs, of "tr @ tr1" "k + ?n1"] by auto
  have r7: "\<And>j ts. (j, ts) \<in> set (stamps (k + ?n1) tr2) \<Longrightarrow>
               k + ?n1 < j \<and> ts = uPcmTimestamp a1 + of_nat (j - Suc (k + ?n1)) * timediff a1"
    using r7' by auto
  have "sendFrames w (nf # fs) a (h, tr) = Some (Inr (a', (h', tr @ (tr1 @ tr2))))"
    using s1 s2 by simp
  moreover have "uPcmTimestamp a' = uPcmTimestamp a + of_nat (length (encoded (tr1 @ tr2))) * timediff a"
    by (simp add: r t1 cfg encoded_append algebra_simps)
  moreover have "\<forall>(j, ts) \<in> set (stamps k (tr1 @ tr2)). k < j \<and> ts = uPcmTimestamp a + of_nat (j - Suc k) * timediff a"
  proof -
    have "\<And>j ts. (j, ts) \<in> set (stamps (k + ?n1) tr2) \<Longrightarrow> k < j \<and> ts = uPcmTimestamp a + of_nat (j - Suc k) * timediff a"
    proof -
      fix j ts assume "(j, ts) \<in> set (stamps (k + ?n1) tr2)"
      from r7[OF this] have j: "k + ?n1 < j" "ts = uPcmTimestamp a1 + of_nat (j - Suc (k + ?n1)) * timediff a1"
        by simp_all
      from j(1) have "j - Suc k = ?n1 + (j - Suc (k + ?n1))" by simp
      then show "k < j \<and> ts = uPcmTimestamp a + of_nat (j - Suc k) * timediff a"
        using j by (simp add: t1 cfg algebra_simps)
    qed
    then show ?thesis using q7 by (auto simp: stamps_append)
  qed
  ultimately show ?case by blast
qed

lemma unat_ucast_32_64: "unat (ucast (x :: 32 word) :: 64 word) = unat x"
proof -
  have "uint (ucast x :: 64 word) = uint x"
    by (rule uint_up_ucast) (simp add: is_up)
  then show ?thesis by (simp only: unat_eq_nat_uint)
qed

lemma timediff_exact:
  assumes "unat (uPcmBufSize a) * 1000 < 2 ^ 32" "unat (sampleRate (xAudioConf a)) * 2 < 2 ^ 32"
  shows "unat (timediff a) = unat (uPcmBufSize a) * 1000 div (unat (sampleRate (xAudioConf a)) * 2)"
proof -
  have 1: "unat (uPcmBufSize a * 1000) = unat (uPcmBufSize a) * 1000"
    using assms(1) by (simp add: unat_word_ariths)
  have 2: "unat (sampleRate (xAudioConf a) * 2) = unat (sampleRate (xAudioConf a)) * 2"
    using assms(2) by (simp add: unat_word_ariths)
  have "unat (timediff a) = unat ((uPcmBufSize a * 1000) div (sampleRate (xAudioConf a) * 2))"
    unfolding timediff_def by (rule unat_ucast_32_64)
  then show ?thesis by (simp add: unat_div 1 2)
qed

text \<open>
  C3.  A stream of frames, the first entered at any fill offset and each later one
  entered with a non-empty buffer.  The timestamp is taken from the wall clock at the
  first frame exactly if the buffer is empty then (\<open>ts0\<close> is \<open>now\<close>, whatever the
  timestamp was), and from nowhere else: the clock readings of the later frames do not
  occur in the result.  The \<open>j\<close>-th block completed, if it is submitted, is submitted
  with \<open>ts0\<close> plus \<open>j - 1\<close> block durations, the value the timestamp had before the
  block was completed, and after \<open>n\<close> blocks the timestamp is \<open>ts0\<close> plus \<open>n\<close> block
  durations.  The block duration is the C expression
  \<open>(uPcmBufSize * 1000) / (sampleRate * 2)\<close>, which is the quotient of the numbers when
  neither product overflows 32 bits.
\<close>

theorem C3_timestamps:
  assumes "frame_ok w f" and "\<forall>nf \<in> set fs. frame_ok w (snd nf)"
    and "encoder_ok w a" and "audio_ok h a"
    and "\<forall>e \<in> set (entry_offsets (unat (uPcmBufSize a))
                    ((unat (uPcmOffset a) + unat (len f)) mod unat (uPcmBufSize a))
                    (map (\<lambda>nf. unat (len (snd nf))) fs)). e \<noteq> 0"
  shows "\<exists>a' h' tr2. sendFrames w ((now, f) # fs) a (h, tr) = Some (Inr (a', (h', tr @ tr2))) \<and>
           uPcmTimestamp a' = (if uPcmOffset a = 0 then now else uPcmTimestamp a)
                                + of_nat (length (encoded tr2)) * timediff a \<and>
           (\<forall>(j, ts) \<in> set (stamps 0 tr2). 0 < j \<and> j \<le> length (encoded tr2) \<and>
               ts = (if uPcmOffset a = 0 then now else uPcmTimestamp a) + of_nat (j - 1) * timediff a) \<and>
           timediff a = ucast ((uPcmBufSize a * 1000) div (sampleRate (xAudioConf a) * 2)) \<and>
           (unat (uPcmBufSize a) * 1000 < 2 ^ 32 \<and> unat (sampleRate (xAudioConf a)) * 2 < 2 ^ 32 \<longrightarrow>
              unat (timediff a) = unat (uPcmBufSize a) * 1000 div (unat (sampleRate (xAudioConf a)) * 2))"
proof -
  let ?c = "unat (uPcmBufSize a)"
  let ?ts0 = "if uPcmOffset a = 0 then now else uPcmTimestamp a"
  let ?a0 = "seedTimestamp now a"
  let ?D1 = "pending h a @ frame_bytes f"
  have ts0: "uPcmTimestamp ?a0 = ?ts0" by (simp add: seedTimestamp_def)
  obtain a1 h1 tr1 where s1: "sendAudioFrame w now (Some a) (Some f) (h, tr) = Some (Inr (0, Some a1, (h1, tr @ tr1)))"
    and p1: "loop_post 0 ?a0 ?D1 a1 h1 tr1"
    using sendAudioFrame_run[OF assms(1,3,4), of now tr 0] by auto
  let ?n1 = "length (encoded tr1)"
  from p1 have q: "a1\<lparr>uPcmOffset := 0, uPcmTimestamp := 0\<rparr> = a\<lparr>uPcmOffset := 0, uPcmTimestamp := 0\<rparr>"
    "audio_ok h1 a1" "encoded tr1 = chunks ?c ?D1" "unat (uPcmOffset a1) = length ?D1 mod ?c"
    "uPcmTimestamp a1 = ?ts0 + of_nat (length ?D1 div ?c) * timediff a"
    and q7': "\<forall>(j, ts) \<in> set (stamps 0 tr1). 0 < j \<and> ts = ?ts0 + of_nat (j - Suc 0) * timediff a"
    unfolding loop_post_def ts0 by simp_all
  have q7: "\<And>j ts. (j, ts) \<in> set (stamps 0 tr1) \<Longrightarrow> 0 < j \<and> ts = ?ts0 + of_nat (j - Suc 0) * timediff a"
    using q7' by auto
  note cfg = same_config[OF q(1)]
  have lD: "length ?D1 = unat (uPcmOffset a) + unat (len f)"
    using length_pending[OF assms(4)] length_frame_bytes[OF assms(1)] by simp
  have o1: "unat (uPcmOffset a1) = (unat (uPcmOffset a) + unat (len f)) mod ?c"
    by (simp only: q(4) lD)
  have n1: "?n1 = length ?D1 div ?c" by (simp add: q(3) length_chunks)
  have t1: "uPcmTimestamp a1 = ?ts0 + of_nat ?n1 * timediff a"
    by (simp only: q(5) n1)
  have e1: "encoder_ok w a1" using assms(3) by (simp add: cfg)
  have eo: "\<forall>e \<in> set (entry_offsets (unat (uPcmBufSize a1)) (unat (uPcmOffset a1))
                  (map (\<lambda>nf. unat (len (snd nf))) fs)). e \<noteq> 0"
    using assms(5) by (simp add: cfg o1)
  obtain a' h' tr2 where s2: "sendFrames w fs a1 (h1, tr @ tr1) = Some (Inr (a', (h', (tr @ tr1) @ tr2)))"
    and r: "uPcmTimestamp a' = uPcmTimestamp a1 + of_nat (length (encoded tr2)) * timediff a1"
    and r7': "\<forall>(j, ts) \<in> set (stamps ?n1 tr2).
               ?n1 < j \<and> ts = uPcmTimestamp a1 + of_nat (j - Suc ?n1) * timediff a1"
    using sendFrames_stamps[OF assms(2) e1 q(2) eo, of "tr @ tr1" ?n1] by auto
  have r7: "\<And>j ts. (j, ts) \<in> set (stamps ?n1 tr2) \<Longrightarrow>
               ?n1 < j \<and> ts = uPcmTimestamp a1 + of_nat (j - Suc ?n1) * timediff a1"
    using r7' by auto
  have g1: "sendFrames w ((now, f) # fs) a (h, tr) = Some (Inr (a', (h', tr @ (tr1 @ tr2))))"
    using s1 s2 by simp
  have g2: "uPcmTimestamp a' = ?ts0 + of_nat (length (encoded (tr1 @ tr2))) * timediff a"
    unfolding r t1 cfg encoded_append by (simp add: algebra_simps)
  have g3: "\<forall>(j, ts) \<in> set (stamps 0 (tr1 @ tr2)). 0 < j \<and> j \<le> length (encoded (tr1 @ tr2)) \<and>
               ts = ?ts0 + of_nat (j - 1) * timediff a"
  proof -
    have "\<And>j ts. (j, ts) \<in> set (stamps ?n1 tr2) \<Longrightarrow> 0 < j \<and> ts = ?ts0 + of_nat (j - Suc 0) * timediff a"
    proof -
      fix j ts assume "(j, ts) \<in> set (stamps ?n1 tr2)"
      from r7[OF this] have j: "?n1 < j" "ts = uPcmTimestamp a1 + of_nat (j - Suc ?n1) * timediff a1"
        by simp_all
      from j(1) have "j - Suc 0 = ?n1 + (j - Suc ?n1)" by simp
      then show "0 < j \<and> ts = ?ts0 + of_nat (j - Suc 0) * timediff a"
        using j unfolding t1 cfg by (simp add: algebra_simps)
    qed
    then have "\<And>j ts. (j, ts) \<in> set (stamps 0 (tr1 @ tr2)) \<Longrightarrow> 0 < j \<and> ts = ?ts0 + of_nat (j - Suc 0) * timediff a"
      using q7 by (auto simp: stamps_append)
    moreover have "\<And>j ts. (j, ts) \<in> set (stamps 0 (tr1 @ tr2)) \<Longrightarrow> j \<le> length (encoded (tr1 @ tr2))"
      using stamps_le[of _ _ 0 "tr1 @ tr2"] by simp
    ultimately show ?thesis by auto
  qed
  have g4: "timediff a = ucast ((uPcmBufSize a * 1000) div (sampleRate (xAudioConf a) * 2))"
    by (simp add: timediff_def)
  have g5: "unat (uPcmBufSize a) * 1000 < 2 ^ 32 \<and> unat (sampleRate (xAudioConf a)) * 2 < 2 ^ 32 \<longrightarrow>
              unat (timediff a) = unat (uPcmBufSize a) * 1000 div (unat (sampleRate (xAudioConf a)) * 2)"
    using timediff_exact by blast
  show ?thesis
    using g1 g2 g3 g4 g5 by blast
qed

declare sendLoop.simps [code]

lemma run_frames0:
  "(case sendFrames world0 frames0 audio0 (heap0, []) of
      Some (Inr (a, (h, tr))) \<Rightarrow> Some (uPcmOffset a, uPcmTimestamp a, stamps 0 tr, length (encoded tr))
    | _ \<Rightarrow> None)
   = Some (12, 1004, [(1, 1000), (2, 1002)], 2)"
  by code_simp

theorem C3_witness:
  "frame_ok world0 (snd (hd frames0)) \<and> list_all (\<lambda>nf. frame_ok world0 (snd nf)) (tl frames0) \<and>
   encoder_ok world0 audio0 \<and> audio_ok heap0 audio0 \<and> uPcmOffset audio0 = 0 \<and>
   entry_offsets (unat (uPcmBufSize audio0))
     ((unat (uPcmOffset audio0) + unat (len (snd (hd frames0)))) mod unat (uPcmBufSize audio0))
     (map (\<lambda>nf. unat (len (snd nf))) (tl frames0)) = [40] \<and>
   timediff audio0 = 2 \<and>
   (\<exists>a' h' tr2. sendFrames world0 frames0 audio0 (heap0, []) = Some (Inr (a', (h', tr2))) \<and>
      uPcmTimestamp a' = 1000 + of_nat (length (encoded tr2)) * 2 \<and>
      list_all (\<lambda>(j, ts). 0 < j \<and> j \<le> length (encoded tr2) \<and> ts = 1000 + of_nat (j - 1) * 2)
        (stamps 0 tr2) \<and>
      stamps 0 tr2 = [(1, 1000), (2, 1002)])"
proof -
  let ?f = "\<lparr>virAddr = replicate 40 1, len = 40\<rparr> :: IMPAudioFrame"
  let ?fs = "[(2000, \<lparr>virAddr = replicate 100 2, len = 100\<rparr>)] :: (uint64_t \<times> IMPAudioFrame) list"
  have fr: "frames0 = (1000, ?f) # ?fs" by (simp add: frames0_def)
  have h1: "frame_ok world0 ?f" and h2: "\<forall>nf \<in> set ?fs. frame_ok world0 (snd nf)"
    using world0_ok(3) by (simp_all add: frames0_def)
  have eo: "entry_offsets (unat (uPcmBufSize audio0))
     ((unat (uPcmOffset audio0) + unat (len ?f)) mod unat (uPcmBufSize audio0))
     (map (\<lambda>nf. unat (len (snd nf))) ?fs) = [40]"
    by (simp add: audio0_def)
  have o: "uPcmOffset audio0 = 0" by (simp add: audio0_def)
  have td: "timediff audio0 = 2" by (simp add: timediff_def audio0_def conf0_def)
  have h5: "\<forall>e \<in> set (entry_offsets (unat (uPcmBufSize audio0))
                    ((unat (uPcmOffset audio0) + unat (len ?f)) mod unat (uPcmBufSize audio0))
                    (map (\<lambda>nf. unat (len (snd nf))) ?fs)). e \<noteq> 0"
    unfolding eo by simp
  from C3_timestamps[OF h1 h2 world0_ok(1,2) h5, of 1000 "[]"]
  obtain a' h' tr2 where s: "sendFrames world0 frames0 audio0 (heap0, []) = Some (Inr (a', (h', tr2)))"
    and t: "uPcmTimestamp a' = 1000 + of_nat (length (encoded tr2)) * 2"
    and b: "\<forall>(j, ts) \<in> set (stamps 0 tr2). 0 < j \<and> j \<le> length (encoded tr2) \<and>
               ts = 1000 + of_nat (j - 1) * 2"
    unfolding fr[symmetric] td using o by auto
  have st: "stamps 0 tr2 = [(1, 1000), (2, 1002)]"
    using run_frames0 s by simp
  have "list_all (\<lambda>(j, ts). 0 < j \<and> j \<le> length (encoded tr2) \<and> ts = 1000 + of_nat (j - 1) * 2)
        (stamps 0 tr2)"
    using b by (simp add: list_all_iff)
  with s t st have "\<exists>a' h' tr2. sendFrames world0 frames0 audio0 (heap0, []) = Some (Inr (a', (h', tr2))) \<and>
      uPcmTimestamp a' = 1000 + of_nat (length (encoded tr2)) * 2 \<and>
      list_all (\<lambda>(j, ts). 0 < j \<and> j \<le> length (encoded tr2) \<and> ts = 1000 + of_nat (j - 1) * 2)
        (stamps 0 tr2) \<and>
      stamps 0 tr2 = [(1, 1000), (2, 1002)]"
    by (intro exI[of _ a'] exI[of _ h'] exI[of _ tr2]) simp
  moreover have "frame_ok world0 (snd (hd frames0))" "list_all (\<lambda>nf. frame_ok world0 (snd nf)) (tl frames0)"
    using h1 h2 by (simp_all add: fr)
  moreover have "entry_offsets (unat (uPcmBufSize audio0))
     ((unat (uPcmOffset audio0) + unat (len (snd (hd frames0)))) mod unat (uPcmBufSize audio0))
     (map (\<lambda>nf. unat (len (snd nf))) (tl frames0)) = [40]"
    using eo by (simp add: fr)
  ultimately show ?thesis using world0_ok(1,2) o td by blast
qed

section \<open>Independence from the encoder and the allocator\<close>

lemma audio_eqI:
  assumes "a1\<lparr>uPcmOffset := 0, uPcmTimestamp := 0\<rparr> = a2\<lparr>uPcmOffset := 0, uPcmTimestamp := 0\<rparr>"
    and "uPcmOffset a1 = uPcmOffset a2" and "uPcmTimestamp a1 = uPcmTimestamp a2"
  shows "a1 = a2"
proof -
  have "a1 = a1\<lparr>uPcmOffset := 0, uPcmTimestamp := 0\<rparr>\<lparr>uPcmOffset := uPcmOffset a1, uPcmTimestamp := uPcmTimestamp a1\<rparr>"
    by simp
  also have "\<dots> = a2\<lparr>uPcmOffset := 0, uPcmTimestamp := 0\<rparr>\<lparr>uPcmOffset := uPcmOffset a2, uPcmTimestamp := uPcmTimestamp a2\<rparr>"
    by (simp only: assms)
  also have "\<dots> = a2" by simp
  finally show ?thesis .
qed

lemma worlds_ok:
  "encoder_ok world_enc_fail audio0" "encoder_ok world_enc_empty audio0" "encoder_ok world_oom audio0"
  "frame_ok world_enc_fail f = frame_ok world0 f" "frame_ok world_enc_empty f = frame_ok world0 f"
  "frame_ok world_oom f = frame_ok world0 f"
  by (simp_all add: encoder_ok_def frame_ok_def world_enc_fail_def world_enc_empty_def world_oom_def
        world0_def audio0_def)

text \<open>
  C10.  Two calls of \<open>sendAudioFrame\<close> on the same structure, frame and clock reading,
  in two worlds (encoders and allocators that answer in any way within the contract) and
  on two heaps that agree on the PCM buffer, both return 0 and leave the same
  structure, so the same fill offset and timestamp, and the same PCM buffer contents;
  the encoder is called on the same blocks in both.
\<close>

theorem C10_outcomes_do_not_shift_state:
  assumes "frame_ok w1 f" and "frame_ok w2 f" and "encoder_ok w1 a" and "encoder_ok w2 a"
    and "audio_ok h1 a" and "audio_ok h2 a" and "pcm h1 a = pcm h2 a"
  shows "\<exists>a' h1' h2' t1 t2.
           sendAudioFrame w1 now (Some a) (Some f) (h1, tr1) = Some (Inr (0, Some a', (h1', tr1 @ t1))) \<and>
           sendAudioFrame w2 now (Some a) (Some f) (h2, tr2) = Some (Inr (0, Some a', (h2', tr2 @ t2))) \<and>
           pcm h1' a' = pcm h2' a' \<and> encoded t1 = encoded t2"
proof -
  let ?c = "unat (uPcmBufSize a)"
  have pe: "pending h1 a = pending h2 a" using assms(7) by (simp add: pending_def)
  let ?D = "pending h2 a @ frame_bytes f"
  obtain a1 h1' t1 where r1: "sendAudioFrame w1 now (Some a) (Some f) (h1, tr1) = Some (Inr (0, Some a1, (h1', tr1 @ t1)))"
    and p1: "loop_post 0 (seedTimestamp now a) ?D a1 h1' t1"
    and b1: "pcm h1' a1 = final_pcm ?c (pcm h2 a) ?D"
    using sendAudioFrame_run[OF assms(1,3,5), of now tr1 0] unfolding pe assms(7) by auto
  obtain a2 h2' t2 where r2: "sendAudioFrame w2 now (Some a) (Some f) (h2, tr2) = Some (Inr (0, Some a2, (h2', tr2 @ t2)))"
    and p2: "loop_post 0 (seedTimestamp now a) ?D a2 h2' t2"
    and b2: "pcm h2' a2 = final_pcm ?c (pcm h2 a) ?D"
    using sendAudioFrame_run[OF assms(2,4,6), of now tr2 0] by auto
  have "unat (uPcmOffset a1) = unat (uPcmOffset a2)"
    using p1 p2 by (simp add: loop_post_def)
  then have o: "uPcmOffset a1 = uPcmOffset a2" by (simp only: word_unat_eq_iff)
  have "a1 = a2"
    by (rule audio_eqI) (use p1 p2 o in \<open>simp_all add: loop_post_def\<close>)
  moreover have "pcm h1' a1 = pcm h2' a1" using b1 b2 \<open>a1 = a2\<close> by simp
  moreover have "encoded t1 = encoded t2" using p1 p2 by (simp add: loop_post_def)
  ultimately show ?thesis using r1 r2 by blast
qed

theorem C10_witness:
  "frame_ok world0 (snd (hd frames_spanning)) \<and> frame_ok world_enc_fail (snd (hd frames_spanning)) \<and>
   encoder_ok world0 audio0 \<and> encoder_ok world_enc_fail audio0 \<and> audio_ok heap0 audio0 \<and>
   (\<exists>a' h1' h2' t1 t2.
      sendAudioFrame world0 7 (Some audio0) (Some (snd (hd frames_spanning))) (heap0, [])
        = Some (Inr (0, Some a', (h1', t1))) \<and>
      sendAudioFrame world_enc_fail 7 (Some audio0) (Some (snd (hd frames_spanning))) (heap0, [])
        = Some (Inr (0, Some a', (h2', t2))) \<and>
      pcm h1' a' = pcm h2' a' \<and> encoded t1 = encoded t2)"
proof -
  have f: "frame_ok world0 (snd (hd frames_spanning))"
    using scenario_ok(2) by (simp add: frames_spanning_def)
  then have f2: "frame_ok world_enc_fail (snd (hd frames_spanning))"
    by (simp add: worlds_ok)
  show ?thesis
    using C10_outcomes_do_not_shift_state[OF f f2 world0_ok(1) worlds_ok(1) world0_ok(2) world0_ok(2) refl,
        of 7 "[]" "[]"] f f2 world0_ok(1,2) worlds_ok(1)
    by simp
qed

section \<open>Creation and termination\<close>

lemma wait_alone_never_returns_aux:
  assumes "waitTerminated others p i s = Some y"
  shows "\<not> (others = (\<lambda>i h. h) \<and> stuck (fst s) p)"
proof (rule waitTerminated.raw_induct
    [where P = "\<lambda>others p i s y. \<not> (others = (\<lambda>i h. h) \<and> stuck (fst s) p)", OF _ assms])
  fix wt :: "(nat \<Rightarrow> heap \<Rightarrow> heap) \<Rightarrow> addr \<Rightarrow> nat \<Rightarrow> state \<Rightarrow> (fault + state) option"
  fix others p i s y
  assume IH: "\<And>others p i s y. wt others p i s = Some y \<Longrightarrow> \<not> (others = (\<lambda>i h. h) \<and> stuck (fst s) p)"
    and body: "(case lookup (fst s) p of
        None \<Rightarrow> Some (Inl BadPointer)
      | Some (AudioObj a) \<Rightarrow>
          if \<not> isTerminated a
          then wt others p (Suc i) (others i (fst s), snd s @ [Sleep 10])
          else Some (Inr s)
      | Some _ \<Rightarrow> Some (Inl BadPointer)) = Some y"
  show "\<not> (others = (\<lambda>i h. h) \<and> stuck (fst s) p)"
  proof
    assume a: "others = (\<lambda>i h. h) \<and> stuck (fst s) p"
    then obtain au where l: "lookup (fst s) p = Some (AudioObj au)" "\<not> isTerminated au"
      by (auto simp: stuck_def split: option.splits obj.splits)
    from body l a have "wt others p (Suc i) (fst s, snd s @ [Sleep 10]) = Some y"
      by simp
    from IH[OF this] a show False by simp
  qed
qed

lemma wait_alone_never_returns:
  "stuck (fst s) p \<Longrightarrow> waitTerminated (\<lambda>i h. h) p i s = None"
  using wait_alone_never_returns_aux[of "\<lambda>i h. h" p i s] by (cases "waitTerminated (\<lambda>i h. h) p i s") auto

lemma terminate_alone_never_returns:
  assumes "handle \<noteq> 0" "lookup h handle = Some (AudioObj a)" "\<not> isTerminated a"
  shows "T31Audio_terminate (\<lambda>i h. h) handle (h, tr) = None"
proof -
  have "stuck (store h handle (AudioObj (a\<lparr>isTerminating := True\<rparr>))) handle"
    using assms by (simp add: stuck_def lookup_store_same)
  then have "waitTerminated (\<lambda>i h. h) handle 0
               (store h handle (AudioObj (a\<lparr>isTerminating := True\<rparr>)), tr @ [StoreIsTerminating]) = None"
    by (intro wait_alone_never_returns) simp
  then show ?thesis using assms by (simp add: T31Audio_terminate_def)
qed

lemma initAudioTrackInfo_flag:
  "initAudioTrackInfo w (Some a) s = (rc, pa, s') \<Longrightarrow> \<exists>a'. pa = Some a' \<and> isTerminated a' = isTerminated a"
  by (auto simp: initAudioTrackInfo_def Let_def split: if_splits prod.splits)

lemma initAacEncoder_flag:
  "initAacEncoder w (Some a) s = (rc, pa, s') \<Longrightarrow> \<exists>a'. pa = Some a' \<and> isTerminated a' = isTerminated a"
  by (auto simp: initAacEncoder_def Let_def split: if_splits prod.splits)

lemma brk_simps [simp]: "brk (store h p v) = brk h" "brk (free h p) = brk h"
  "brk (snd (alloc h v)) = Suc (brk h)"
  by (simp_all add: store_def free_def alloc_def)

lemma initAudioTrackInfo_brk:
  "initAudioTrackInfo w pa s = (rc, pa', s') \<Longrightarrow> brk (fst s) \<le> brk (fst s')"
  by (auto simp: initAudioTrackInfo_def Let_def alloc_def store_def free_def
      split: if_splits prod.splits option.splits)

lemma initAacEncoder_brk:
  "initAacEncoder w pa s = (rc, pa', s') \<Longrightarrow> brk (fst s) \<le> brk (fst s')"
  by (auto simp: initAacEncoder_def Let_def alloc_def split: if_splits prod.splits option.splits)

lemma createSteps_flag:
  assumes "createSteps w a s = (res, a', s')"
  shows "isTerminated a' = isTerminated a \<and> brk (fst s) \<le> brk (fst s')"
proof (cases "Lock_Init w (snd s)")
  case False
  then show ?thesis using assms by (auto simp: createSteps_def)
next
  case True
  obtain l h1 where al: "alloc (fst s) LockObj = (l, h1)" by (cases "alloc (fst s) LockObj")
  obtain c where ci: "audioConfigurationInit (Some (xAudioConf a)) (snd s @ [LockInit l]) = (0, Some c, snd s @ [LockInit l])"
    by (simp add: audioConfigurationInit_def)
  let ?a1 = "a\<lparr>lock := l, xAudioConf := c\<rparr>"
  obtain rc2 pa2 s2 where ti: "initAudioTrackInfo w (Some ?a1) (h1, snd s @ [LockInit l]) = (rc2, pa2, s2)"
    by (cases "initAudioTrackInfo w (Some ?a1) (h1, snd s @ [LockInit l])")
  from initAudioTrackInfo_flag[OF ti] obtain a2 where a2: "pa2 = Some a2" "isTerminated a2 = isTerminated a"
    by auto
  obtain rc3 pa3 s3 where ae: "initAacEncoder w (Some a2) s2 = (rc3, pa3, s3)"
    by (cases "initAacEncoder w (Some a2) s2")
  from initAacEncoder_flag[OF ae] obtain a3 where a3: "pa3 = Some a3" "isTerminated a3 = isTerminated a"
    using a2 by auto
  have b1: "brk h1 = Suc (brk (fst s))" using al by (auto simp: alloc_def)
  note b2 = initAudioTrackInfo_brk[OF ti] initAacEncoder_brk[OF ae]
  show ?thesis
    using assms True al ci ti a2 ae a3 b1 b2
    by (auto simp: createSteps_def Let_def split: if_splits prod.splits)
qed

text \<open>
  C5 (the code does not do this).  When the structure is allocated and one of the later
  creation steps fails, \<open>T31Audio_create\<close> calls \<open>T31Audio_terminate\<close>, which waits for
  \<open>isTerminated\<close>; no worker exists to set the flag, and the call never returns.
\<close>

theorem C5_create_failure_never_returns:
  assumes "KVS_MALLOC w (snd s) (sizeof_T31Audio_t w)"
    and "fst (createSteps w
           (zero_audio\<lparr>isTerminating := False, isTerminated := False,
                        kvsAppHandle := k, xFrameBufSize := 8 * 1024\<rparr>)
           (snd (alloc (fst s) (AudioObj zero_audio)),
            snd s @ [Malloc (sizeof_T31Audio_t w) (fst (alloc (fst s) (AudioObj zero_audio)))])) \<noteq> 0"
  shows "T31Audio_create w k s = None"
proof -
  obtain p h1 where al: "alloc (fst s) (AudioObj zero_audio) = (p, h1)"
    by (cases "alloc (fst s) (AudioObj zero_audio)")
  let ?a0 = "zero_audio\<lparr>isTerminating := False, isTerminated := False,
                        kvsAppHandle := k, xFrameBufSize := 8 * 1024\<rparr>"
  obtain res a s1 where cs: "createSteps w ?a0 (h1, snd s @ [Malloc (sizeof_T31Audio_t w) p]) = (res, a, s1)"
    by (cases "createSteps w ?a0 (h1, snd s @ [Malloc (sizeof_T31Audio_t w) p])")
  have r: "res \<noteq> 0" using assms(2) unfolding al fst_conv snd_conv cs .
  have f: "\<not> isTerminated a" using createSteps_flag[OF cs] by simp
  have p0: "p \<noteq> 0" "p \<le> brk h1" using al by (auto simp: alloc_def)
  have "p \<le> brk (fst s1)" using createSteps_flag[OF cs] p0(2) by simp
  then have "lookup (store (fst s1) p (AudioObj a)) p = Some (AudioObj a)"
    using p0(1) by (simp add: lookup_def store_def)
  then have "T31Audio_terminate (\<lambda>i h. h) p (store (fst s1) p (AudioObj a), snd s1) = None"
    using p0(1) f by (intro terminate_alone_never_returns) simp_all
  then show ?thesis
    using assms(1) al cs r by (simp add: T31Audio_create_def)
qed

lemma create_steps_no_lock:
  "fst (createSteps world_no_lock
         (zero_audio\<lparr>isTerminating := False, isTerminated := False,
                      kvsAppHandle := 9, xFrameBufSize := 8 * 1024\<rparr>)
         (snd (alloc (fst (empty_heap, [])) (AudioObj zero_audio)),
          snd (empty_heap, []) @ [Malloc (sizeof_T31Audio_t world_no_lock)
                 (fst (alloc (fst (empty_heap, [])) (AudioObj zero_audio)))])) = 399"
  by (simp add: createSteps_def world_no_lock_def world0_def)

lemma create_steps_no_thread:
  "fst (createSteps world_no_thread
         (zero_audio\<lparr>isTerminating := False, isTerminated := False,
                      kvsAppHandle := 9, xFrameBufSize := 8 * 1024\<rparr>)
         (snd (alloc (fst (empty_heap, [])) (AudioObj zero_audio)),
          snd (empty_heap, []) @ [Malloc (sizeof_T31Audio_t world_no_thread)
                 (fst (alloc (fst (empty_heap, [])) (AudioObj zero_audio)))])) = 419"
  by code_simp

theorem C5_witness:
  "KVS_MALLOC world_no_lock [] (sizeof_T31Audio_t world_no_lock) \<and>
   \<not> Lock_Init world_no_lock [Malloc (sizeof_T31Audio_t world_no_lock) 1] \<and>
   T31Audio_create world_no_lock 9 (empty_heap, []) = None \<and>
   KVS_MALLOC world_no_thread [] (sizeof_T31Audio_t world_no_thread) \<and>
   T31Audio_create world_no_thread 9 (empty_heap, []) = None"
proof -
  have m: "KVS_MALLOC world_no_lock (snd (empty_heap, [])) (sizeof_T31Audio_t world_no_lock)"
    "KVS_MALLOC world_no_thread (snd (empty_heap, [])) (sizeof_T31Audio_t world_no_thread)"
    "\<not> Lock_Init world_no_lock [Malloc (sizeof_T31Audio_t world_no_lock) 1]"
    by (simp_all add: world_no_lock_def world_no_thread_def world0_def)
  have "T31Audio_create world_no_lock 9 (empty_heap, []) = None"
    by (rule C5_create_failure_never_returns[OF m(1)]) (simp only: create_steps_no_lock, simp)
  moreover have "T31Audio_create world_no_thread 9 (empty_heap, []) = None"
    by (rule C5_create_failure_never_returns[OF m(2)]) (simp only: create_steps_no_thread, simp)
  ultimately show ?thesis using m by simp
qed

section \<open>The capture worker\<close>

lemma audioLoop_timeouts:
  "\<exists>tr'. audioLoop w (replicate n timeout_it) a (h, tr) = Some (Inr (None, a, (h, tr')))"
  by (induction n arbitrary: tr) (simp_all add: timeout_it_def Let_def)

lemma setup_dev0: "\<exists>tr'. setupFailed dev0 c tr = (False, tr')"
  by (simp add: setupFailed_def dev0_def Let_def)

text \<open>
  C4 (the code does not do this).  With a schedule in which every poll times out, the
  worker is still in the loop at the end of the schedule, however long the schedule is
  and although \<open>isTerminating\<close> is set from the start: the \<open>continue\<close> of line 235 skips
  the check of line 258.  The thread function has not returned and \<open>isTerminated\<close> is
  as it was.
\<close>

theorem C4_timeouts_never_observe_termination:
  "\<exists>tr'. audioThread w dev0 (replicate n timeout_it) (Some (a\<lparr>isTerminating := True\<rparr>)) (h, tr)
           = Some (Inr (None, a\<lparr>isTerminating := True\<rparr>, (h, tr')))"
proof -
  obtain t1 where s: "setupFailed dev0 (xAudioConf (a\<lparr>isTerminating := True\<rparr>)) tr = (False, t1)"
    using setup_dev0 by blast
  obtain t2 where l: "audioLoop w (replicate n timeout_it) (a\<lparr>isTerminating := True\<rparr>) (h, t1)
      = Some (Inr (None, a\<lparr>isTerminating := True\<rparr>, (h, t2)))"
    using audioLoop_timeouts by blast
  show ?thesis
    using s l by (simp add: audioThread_def)
qed

lemma kept_refl [simp]: "kept a a" by (simp add: kept_def)

lemma kept_upd [simp]:
  "kept (a\<lparr>uPcmOffset := x\<rparr>) a' = kept a a'"
  "kept (a\<lparr>uPcmTimestamp := y\<rparr>) a' = kept a a'"
  "kept (seedTimestamp now a) a' = kept a a'"
  by (simp_all add: kept_def seedTimestamp_def)


















lemma audio_ok_flag [simp]: "audio_ok h (a\<lparr>isTerminating := t\<rparr>) = audio_ok h a"
  by (simp add: audio_ok_def)

lemma encoder_ok_flag [simp]: "encoder_ok w (a\<lparr>isTerminating := t\<rparr>) = encoder_ok w a"
  by (simp add: encoder_ok_def)











section \<open>Termination of the handle\<close>

declare waitTerminated.simps [code]













section \<open>The clone of the track information\<close>








section \<open>Dispatch of the encoded blocks\<close>

lemma block_ok_upd [simp]:
  "block_ok w (a\<lparr>uPcmOffset := x\<rparr>) ts tr g = block_ok w a ts tr g"
  "block_ok w (a\<lparr>uPcmTimestamp := y\<rparr>) ts tr g = block_ok w a ts tr g"
  by (simp_all add: block_ok_def submission_def cong: list.case_cong event.case_cong)

lemma runs_ok_upd [simp]:
  "runs_ok w (a\<lparr>uPcmOffset := x\<rparr>) ts tr gs = runs_ok w a ts tr gs"
  "runs_ok w (a\<lparr>uPcmTimestamp := y\<rparr>) ts tr gs = runs_ok w a ts tr gs"
  by (induction gs arbitrary: ts tr) simp_all

lemma runs_ok_append:
  "runs_ok w a ts tr (gs @ [g]) =
     (runs_ok w a ts tr gs \<and> block_ok w a (ts + of_nat (length gs) * timediff a) (tr @ concat gs) g)"
  by (induction gs arbitrary: ts tr) (simp_all add: algebra_simps)












lemma flaky_run:
  "(case sendAudioFrame world_flaky 1000 (Some audio0) (Some (it_frame spanning_it)) (heap0, []) of
      Some (Inr (rc, pa, (h', tr'))) \<Rightarrow> Some (rc, tr')
    | _ \<Rightarrow> None)
   = Some (0, [Encode 4 (replicate 64 1) 64, LogError ''aac encode failed'',
               Encode 4 (replicate 64 1) 64, Malloc 3 5,
               AddFrame 9 5 [7, 8, 9] 3 3 1002 TRACK_AUDIO])"
  by code_simp



end
